theory Spec2Isabelle
  imports Complex_Main "HOL-Library.Char_ord" "HOL-Library.List_Lexorder" "HOL-Library.Multiset"
begin

section \<open>Errors\<close>

text \<open>
  The exceptions that \<^verbatim>\<open>split_data\<close> of \<^verbatim>\<open>create_new_split.py\<close> can raise:
  the failed \<^verbatim>\<open>assert\<close>, the \<^verbatim>\<open>ValueError\<close> of
  \<^verbatim>\<open>train_test_split\<close>, the division by zero in the second call's argument, and the
  \<^verbatim>\<open>FileNotFoundError\<close> of \<^verbatim>\<open>os.listdir\<close> and \<^verbatim>\<open>shutil.move\<close>.
\<close>

datatype error = AssertionError | ValueError | ZeroDivisionError | FileNotFoundError

section \<open>Python floats\<close>

text \<open>
  A finite Python float is the rational number it denotes. Every arithmetic operation
  computes the exact rational result and rounds it to 53 significant bits, ties to even
  (IEEE 754 binary64, in the normal range: overflow, subnormal numbers, infinities and
  NaN are outside the model; the ratios of \<^verbatim>\<open>split_data\<close> are of magnitude 1).
\<close>

type_synonym pyfloat = rat

function bit_length :: "int \<Rightarrow> int" where
  "bit_length n = (if n \<le> 0 then 0 else 1 + bit_length (n div 2))"
  by pat_completeness auto
termination
  by (relation "measure nat") auto

definition exponent_of :: "rat \<Rightarrow> int" where
  \<comment> \<open>for \<open>q > 0\<close>, the \<open>e\<close> with \<open>2 powi e \<le> q < 2 powi (e + 1)\<close>\<close>
  "exponent_of q =
     (let (a, b) = quotient_of q;
          e0 = bit_length a - bit_length b
      in if 2 powi e0 \<le> q then e0 else e0 - 1)"

definition round_half_even :: "rat \<Rightarrow> int" where
  "round_half_even m =
     (let f = \<lfloor>m\<rfloor>; d = m - of_int f
      in if d < 1 / 2 then f else if 1 / 2 < d then f + 1
         else if even f then f else f + 1)"

definition round_pos :: "rat \<Rightarrow> rat" where
  "round_pos q =
     (let e = exponent_of q
      in of_int (round_half_even (q * 2 powi (52 - e))) * 2 powi (e - 52))"

definition to_float :: "rat \<Rightarrow> pyfloat" where
  \<comment> \<open>the float nearest to a rational: a literal such as \<^verbatim>\<open>0.7\<close> is \<open>to_float (7 / 10)\<close>\<close>
  "to_float q = (if q = 0 then 0 else if q < 0 then - round_pos (- q) else round_pos q)"

definition fadd :: "pyfloat \<Rightarrow> pyfloat \<Rightarrow> pyfloat" where
  "fadd x y = to_float (x + y)"

definition fmul :: "pyfloat \<Rightarrow> pyfloat \<Rightarrow> pyfloat" where
  "fmul x y = to_float (x * y)"

definition fdiv :: "pyfloat \<Rightarrow> pyfloat \<Rightarrow> error + pyfloat" where
  "fdiv x y = (if y = 0 then Inl ZeroDivisionError else Inr (to_float (x / y)))"

section \<open>File names and paths\<close>

text \<open>
  \<^verbatim>\<open>os.path.splitext\<close> (POSIX): the extension starts at the last dot after the last
  \<^verbatim>\<open>/\<close>, unless only dots stand between that \<^verbatim>\<open>/\<close> and the last dot.
\<close>

definition rfind :: "char \<Rightarrow> string \<Rightarrow> int" where
  "rfind c p =
     (if c \<in> set p
      then int (length p) - 1 - int (length (takeWhile (\<lambda>x. x \<noteq> c) (rev p)))
      else - 1)"

definition splitext :: "string \<Rightarrow> string \<times> string" where
  "splitext p =
     (let sepIndex = rfind CHR ''/'' p;
          dotIndex = rfind CHR ''.'' p
      in if dotIndex > sepIndex \<and>
            list_ex (\<lambda>c. c \<noteq> CHR ''.'')
              (take (nat (dotIndex - (sepIndex + 1))) (drop (nat (sepIndex + 1)) p))
         then (take (nat dotIndex) p, drop (nat dotIndex) p)
         else (p, []))"

type_synonym path = string

text \<open>\<^verbatim>\<open>os.path.join\<close> (POSIX), one component at a time.\<close>

definition join2 :: "path \<Rightarrow> string \<Rightarrow> path" where
  "join2 p b =
     (if b \<noteq> [] \<and> hd b = CHR ''/'' then b
      else if p = [] \<or> last p = CHR ''/'' then p @ b
      else p @ ''/'' @ b)"

definition path_join :: "path \<Rightarrow> string list \<Rightarrow> path" where
  "path_join a ps = foldl join2 a ps"

section \<open>The file system\<close>

text \<open>
  A directory is known by its path and holds the list of names that \<^verbatim>\<open>os.listdir\<close>
  returns for it, in the order the operating system gives them; a path that is not a
  directory maps to \<open>None\<close>. Files are identified by name: their contents play no part
  in \<^verbatim>\<open>split_data\<close>. Directories are flat, each path standing for itself.
\<close>

type_synonym filesystem = "path \<Rightarrow> string list option"

definition makedirs :: "path \<Rightarrow> filesystem \<Rightarrow> filesystem" where
  \<comment> \<open>\<^verbatim>\<open>os.makedirs(p, exist_ok=True)\<close>\<close>
  "makedirs p fs = (case fs p of None \<Rightarrow> fs(p \<mapsto> []) | Some _ \<Rightarrow> fs)"

definition listdir :: "path \<Rightarrow> filesystem \<Rightarrow> error + string list" where
  "listdir p fs = (case fs p of None \<Rightarrow> Inl FileNotFoundError | Some names \<Rightarrow> Inr names)"

definition move :: "path \<Rightarrow> path \<Rightarrow> string \<Rightarrow> filesystem \<Rightarrow> (error + unit) \<times> filesystem" where
  \<comment> \<open>\<^verbatim>\<open>shutil.move(os.path.join(source_dir, fname), os.path.join(target_dir, fname))\<close>\<close>
  "move source_dir target_dir fname fs =
     (case fs source_dir of
        None \<Rightarrow> (Inl FileNotFoundError, fs)
      | Some src \<Rightarrow>
          if fname \<notin> set src then (Inl FileNotFoundError, fs)
          else (case fs target_dir of
                  None \<Rightarrow> (Inl FileNotFoundError, fs)
                | Some tgt \<Rightarrow>
                    if source_dir = target_dir then (Inr (), fs)
                    else (Inr (),
                          fs(source_dir \<mapsto> removeAll fname src,
                             target_dir \<mapsto> (if fname \<in> set tgt then tgt else tgt @ [fname])))))"

fun move_files :: "string list \<Rightarrow> path \<Rightarrow> path \<Rightarrow> filesystem \<Rightarrow> (error + unit) \<times> filesystem" where
  "move_files [] source_dir target_dir fs = (Inr (), fs)"
| "move_files (fname # file_list) source_dir target_dir fs =
     (case move source_dir target_dir fname fs of
        (Inl e, fs') \<Rightarrow> (Inl e, fs')
      | (Inr _, fs') \<Rightarrow> move_files file_list source_dir target_dir fs')"

section \<open>The random split\<close>

text \<open>
  \<^verbatim>\<open>sklearn.model_selection.train_test_split(xs, ys, test_size=t, random_state=42)\<close>.
  A float \<^verbatim>\<open>test_size\<close> outside the open interval from 0 to 1 is a \<^verbatim>\<open>ValueError\<close>;
  \<^verbatim>\<open>n_test = ceil(test_size * n_samples)\<close>, \<^verbatim>\<open>n_train = n_samples - n_test\<close>, and an
  empty train set is a \<^verbatim>\<open>ValueError\<close>. The generator is created anew from the seed 42
  in every call, so the permutation it draws depends on \<^verbatim>\<open>n_samples\<close> only: it is the
  parameter \<open>perm\<close>. The test part is read off the first \<^verbatim>\<open>n_test\<close> permuted indices,
  the train part off the \<^verbatim>\<open>n_train\<close> that follow. The result is in the order of the
  library: train and test of the first list, then train and test of the second.
\<close>

definition train_test_split ::
  "(nat \<Rightarrow> nat list) \<Rightarrow> 'a list \<Rightarrow> 'b list \<Rightarrow> pyfloat \<Rightarrow>
   error + ('a list \<times> 'a list \<times> 'b list \<times> 'b list)" where
  "train_test_split perm xs ys test_size =
     (if test_size \<le> 0 \<or> 1 \<le> test_size then Inl ValueError
      else
        let n_samples = length xs;
            n_test = \<lceil>fmul test_size (to_float (of_nat n_samples))\<rceil>;
            n_train = int n_samples - n_test
        in if n_train = 0 then Inl ValueError
           else
             let permutation = perm n_samples;
                 ind_test = take (nat n_test) permutation;
                 ind_train = take (nat n_train) (drop (nat n_test) permutation)
             in Inr (map ((!) xs) ind_train, map ((!) xs) ind_test,
                     map ((!) ys) ind_train, map ((!) ys) ind_test))"

section \<open>split\_data\<close>

definition matched_files :: "string list \<Rightarrow> string list \<Rightarrow> (string \<times> string) list" where
  "matched_files image_files label_files =
     (let image_base_names = map (\<lambda>fname. fst (splitext fname)) image_files;
          label_base_names = map (\<lambda>fname. fst (splitext fname)) label_files
      in [(image_files ! i, image_base_names ! i @ ''.txt'').
            i \<leftarrow> [0..<length image_files], image_base_names ! i \<in> set label_base_names])"

text \<open>
  The matching as the specification words it: retain, in listing order, the images whose
  base name is among the label base names, and pair each with the label name made of its
  base name and \<^verbatim>\<open>.txt\<close>.
\<close>

definition matched_pairs_spec :: "string list \<Rightarrow> string list \<Rightarrow> (string \<times> string) list" where
  "matched_pairs_spec images labels =
     map (\<lambda>image. (image, fst (splitext image) @ ''.txt''))
       (filter (\<lambda>image. fst (splitext image) \<in> set (map (\<lambda>label. fst (splitext label)) labels))
          images)"

type_synonym assignment =
  "string list \<times> string list \<times> string list \<times> string list \<times> string list \<times> string list"

text \<open>
  The two calls of \<^verbatim>\<open>train_test_split\<close>. The result lists are, in this order:
  train images, train labels, validation images, validation labels, test images,
  test labels.
\<close>

definition split_filenames ::
  "(nat \<Rightarrow> nat list) \<Rightarrow> string list \<Rightarrow> string list \<Rightarrow> pyfloat \<Rightarrow> pyfloat \<Rightarrow>
   error + assignment" where
  "split_filenames perm image_files label_files val_ratio test_ratio =
     (case train_test_split perm image_files label_files (fadd val_ratio test_ratio) of
        Inl e \<Rightarrow> Inl e
      | Inr (train_images, temp_images, train_labels, temp_labels) \<Rightarrow>
          (case fdiv test_ratio (fadd val_ratio test_ratio) of
             Inl e \<Rightarrow> Inl e
           | Inr test_size \<Rightarrow>
               (case train_test_split perm temp_images temp_labels test_size of
                  Inl e \<Rightarrow> Inl e
                | Inr (val_images, test_images, val_labels, test_labels) \<Rightarrow>
                    Inr (train_images, train_labels, val_images, val_labels,
                         test_images, test_labels))))"

text \<open>Listing, matching and splitting: what \<^verbatim>\<open>split_data\<close> computes before it moves a file.\<close>

definition partition_assignment ::
  "(nat \<Rightarrow> nat list) \<Rightarrow> path \<Rightarrow> path \<Rightarrow> pyfloat \<Rightarrow> pyfloat \<Rightarrow> filesystem \<Rightarrow>
   error + assignment" where
  "partition_assignment perm image_dir label_dir val_ratio test_ratio fs =
     (case listdir image_dir fs of
        Inl e \<Rightarrow> Inl e
      | Inr image_listing \<Rightarrow>
          (case listdir label_dir fs of
             Inl e \<Rightarrow> Inl e
           | Inr label_listing \<Rightarrow>
               let matched = matched_files (sort image_listing) (sort label_listing)
               in split_filenames perm (map fst matched) (map snd matched)
                    val_ratio test_ratio))"

definition make_output_dirs :: "path \<Rightarrow> filesystem \<Rightarrow> filesystem" where
  "make_output_dirs output_dir fs =
     foldl (\<lambda>fs split.
              makedirs (path_join output_dir [split, ''labels''])
                (makedirs (path_join output_dir [split, ''images'']) fs))
       fs [''train'', ''valid'', ''test'']"

text \<open>
  The six directories that the loop over the splits creates, in the order it creates
  them; \<open>out_prefix\<close> is what \<^verbatim>\<open>os.path.join\<close> puts before the first component it adds.
\<close>

definition output_dirs :: "path \<Rightarrow> path list" where
  "output_dirs output_dir =
     concat (map (\<lambda>split. [path_join output_dir [split, ''images''],
                            path_join output_dir [split, ''labels'']])
               [''train'', ''valid'', ''test''])"

definition out_prefix :: "path \<Rightarrow> path" where
  "out_prefix p = (if p = [] \<or> last p = CHR ''/'' then p else p @ ''/'')"

text \<open>The names a directory holds, none when it does not exist.\<close>

definition listing :: "filesystem \<Rightarrow> path \<Rightarrow> string list" where
  "listing fs d = (case fs d of None \<Rightarrow> [] | Some names \<Rightarrow> names)"

text \<open>The six calls of \<^verbatim>\<open>move_files\<close>, stopping at the first that raises.\<close>

fun move_all ::
  "(string list \<times> path \<times> path) list \<Rightarrow> filesystem \<Rightarrow> (error + unit) \<times> filesystem" where
  "move_all [] fs = (Inr (), fs)"
| "move_all ((file_list, source_dir, target_dir) # rest) fs =
     (case move_files file_list source_dir target_dir fs of
        (Inl e, fs') \<Rightarrow> (Inl e, fs')
      | (Inr _, fs') \<Rightarrow> move_all rest fs')"

definition relocate ::
  "path \<Rightarrow> path \<Rightarrow> path \<Rightarrow> assignment \<Rightarrow> filesystem \<Rightarrow> (error + unit) \<times> filesystem" where
  "relocate image_dir label_dir output_dir a fs =
     (case a of
        (train_images, train_labels, val_images, val_labels, test_images, test_labels) \<Rightarrow>
          move_all
            [(train_images, image_dir, path_join output_dir [''train'', ''images'']),
             (train_labels, label_dir, path_join output_dir [''train'', ''labels'']),
             (val_images, image_dir, path_join output_dir [''valid'', ''images'']),
             (val_labels, label_dir, path_join output_dir [''valid'', ''labels'']),
             (test_images, image_dir, path_join output_dir [''test'', ''images'']),
             (test_labels, label_dir, path_join output_dir [''test'', ''labels''])]
            fs)"

text \<open>
  \<^verbatim>\<open>split_data\<close> returns the error it raised, or the three counts it prints, and the
  file system it leaves behind.
\<close>

definition split_data ::
  "(nat \<Rightarrow> nat list) \<Rightarrow> path \<Rightarrow> path \<Rightarrow> path \<Rightarrow> pyfloat \<Rightarrow> pyfloat \<Rightarrow> pyfloat \<Rightarrow>
   filesystem \<Rightarrow> (error + nat \<times> nat \<times> nat) \<times> filesystem" where
  "split_data perm image_dir label_dir output_dir train_ratio val_ratio test_ratio fs =
     (if fadd (fadd train_ratio val_ratio) test_ratio \<noteq> 1 then (Inl AssertionError, fs)
      else
        let fs1 = make_output_dirs output_dir fs
        in case partition_assignment perm image_dir label_dir val_ratio test_ratio fs1 of
             Inl e \<Rightarrow> (Inl e, fs1)
           | Inr a \<Rightarrow>
               (case relocate image_dir label_dir output_dir a fs1 of
                  (Inl e, fs2) \<Rightarrow> (Inl e, fs2)
                | (Inr _, fs2) \<Rightarrow>
                    (case a of
                       (train_images, train_labels, val_images, val_labels,
                        test_images, test_labels) \<Rightarrow>
                         (Inr (length train_images, length val_images, length test_images),
                          fs2))))"

section \<open>Example pools\<close>

text \<open>
  A permutation to stand for the one the seeded generator draws, and small pools: three
  matched pairs, an image without a label (\<^verbatim>\<open>d.jpg\<close>) and a label without an image
  (\<^verbatim>\<open>e.txt\<close>), listed in two different orders.
\<close>

definition seeded :: "nat \<Rightarrow> nat list" where
  "seeded n = rev [0..<n]"

definition pool_fs :: filesystem where
  "pool_fs = [''data/all_images'' \<mapsto> [''b.jpg'', ''a.jpg'', ''d.jpg'', ''c.png''],
              ''data/all_labels'' \<mapsto> [''c.txt'', ''e.txt'', ''a.txt'', ''b.txt'']]"

definition pool_fs_relisted :: filesystem where
  "pool_fs_relisted = [''data/all_images'' \<mapsto> [''d.jpg'', ''c.png'', ''b.jpg'', ''a.jpg''],
                       ''data/all_labels'' \<mapsto> [''a.txt'', ''b.txt'', ''c.txt'', ''e.txt'']]"

text \<open>
  A pool in which two images share the base name \<^verbatim>\<open>a\<close>, and the runs of
  \<^verbatim>\<open>split_data\<close> with the default ratios on the two example pools.
\<close>

definition dup_fs :: filesystem where
  "dup_fs = [''data/all_images'' \<mapsto> [''a.jpg'', ''b.jpg'', ''a.png''],
             ''data/all_labels'' \<mapsto> [''a.txt'', ''b.txt'']]"


definition dup_run :: "(error + nat \<times> nat \<times> nat) \<times> filesystem" where
  "dup_run =
     split_data seeded ''data/all_images'' ''data/all_labels'' ''data/resplit''
       (to_float (6 / 10)) (to_float (2 / 10)) (to_float (2 / 10)) dup_fs"

text \<open>Ten matched pairs, the labels listed in another order than the images.\<close>

definition ten_images :: "string list" where
  "ten_images = [''img0001.jpg'', ''img0002.jpg'', ''img0003.jpg'', ''img0004.jpg'',
                 ''img0005.jpg'', ''img0006.jpg'', ''img0007.jpg'', ''img0008.jpg'',
                 ''img0009.jpg'', ''img0010.jpg'']"

definition ten_labels :: "string list" where
  "ten_labels = [''img0003.txt'', ''img0001.txt'', ''img0002.txt'', ''img0010.txt'',
                 ''img0009.txt'', ''img0008.txt'', ''img0007.txt'', ''img0006.txt'',
                 ''img0005.txt'', ''img0004.txt'']"

definition ten_fs :: filesystem where
  "ten_fs = [''data/all_images'' \<mapsto> ten_images, ''data/all_labels'' \<mapsto> ten_labels]"

section \<open>Float facts\<close>

lemma float_05: "to_float (5 / 10) = 1 / 2"
  by code_simp

lemma float_03: "to_float (3 / 10) = 5404319552844595 / 18014398509481984"
  by code_simp

lemma sum_05_03_03:
  "fadd (fadd (to_float (5 / 10)) (to_float (3 / 10))) (to_float (3 / 10)) \<noteq> 1"
  by code_simp

lemma float_07_02_01:
  "fadd (fadd (to_float (7 / 10)) (to_float (2 / 10))) (to_float (1 / 10)) \<noteq> 1"
  by code_simp

lemma float_06_02_02:
  "fadd (fadd (to_float (6 / 10)) (to_float (2 / 10))) (to_float (2 / 10)) = 1"
  by code_simp

lemma float_1_0_0: "fadd (fadd 1 0) 0 = 1"
  by code_simp

lemma float_0_0: "fadd 0 0 = 0"
  by (simp add: fadd_def to_float_def)

section \<open>The ratio check\<close>

text \<open>
  C2. When the sum of the three ratios, as \<^verbatim>\<open>split_data\<close> evaluates it in float
  arithmetic, is not 1, \<^verbatim>\<open>split_data\<close> fails with the assertion error and leaves
  the file system as it found it: no output directory is created and no file is moved.
  The witness is the run with the ratios 0.5, 0.3 and 0.3.
\<close>

theorem split_data_rejects_bad_ratios:
  assumes "fadd (fadd train_ratio val_ratio) test_ratio \<noteq> 1"
  shows "split_data perm image_dir label_dir output_dir train_ratio val_ratio test_ratio fs
         = (Inl AssertionError, fs)"
  using assms by (simp add: split_data_def)

theorem split_data_rejects_bad_ratios_witness:
  "fadd (fadd (to_float (5 / 10)) (to_float (3 / 10))) (to_float (3 / 10)) \<noteq> 1 \<and>
   split_data (\<lambda>n. [0..<n]) ''data/all_images'' ''data/all_labels'' ''data/resplit''
     (to_float (5 / 10)) (to_float (3 / 10)) (to_float (3 / 10)) Map.empty
   = (Inl AssertionError, Map.empty)"
  using split_data_rejects_bad_ratios [OF sum_05_03_03] sum_05_03_03 by simp

text \<open>
  C6. The ratios 0.7, 0.2 and 0.1 sum to 1, but in float arithmetic
  \<^verbatim>\<open>0.7 + 0.2 + 0.1\<close> is \<^verbatim>\<open>0.9999999999999999\<close>: the exact comparison of the
  \<^verbatim>\<open>assert\<close> fails and \<^verbatim>\<open>split_data\<close> rejects them.
\<close>

theorem split_data_rejects_07_02_01:
  "split_data perm image_dir label_dir output_dir
     (to_float (7 / 10)) (to_float (2 / 10)) (to_float (1 / 10)) fs
   = (Inl AssertionError, fs)"
  using float_07_02_01 by (simp add: split_data_def)

section \<open>All of the data in the train set\<close>

lemma train_test_split_zero: "train_test_split perm xs ys 0 = Inl ValueError"
  by (simp add: train_test_split_def)

lemma split_filenames_zero: "split_filenames perm xs ys 0 0 = Inl ValueError"
  by (simp add: split_filenames_def float_0_0 train_test_split_zero)

lemma partition_assignment_zero:
  "partition_assignment perm image_dir label_dir 0 0 fs = Inl FileNotFoundError \<or>
   partition_assignment perm image_dir label_dir 0 0 fs = Inl ValueError"
  by (simp add: partition_assignment_def listdir_def split_filenames_zero
      split: option.splits)

text \<open>
  C7. With \<^verbatim>\<open>train_ratio=1, val_ratio=0, test_ratio=0\<close> the check of the ratios passes and
  the output directories are created, but \<^verbatim>\<open>split_data\<close> never completes: it stops
  with an error before it moves a file (\<^verbatim>\<open>train_test_split\<close> refuses
  \<^verbatim>\<open>test_size = 0\<close>, unless a pool is missing and listing it fails before that).
\<close>

theorem split_data_all_train_fails:
  "split_data perm image_dir label_dir output_dir 1 0 0 fs
     = (Inl FileNotFoundError, make_output_dirs output_dir fs) \<or>
   split_data perm image_dir label_dir output_dir 1 0 0 fs
     = (Inl ValueError, make_output_dirs output_dir fs)"
  using partition_assignment_zero [of perm image_dir label_dir "make_output_dirs output_dir fs"]
  by (auto simp add: split_data_def float_1_0_0 Let_def)

section \<open>The two random splits cut the matched pairs into three parts\<close>

lemma take_take_drop:
  assumes "length p \<le> a + b"
  shows "take a p @ take b (drop a p) = p"
proof -
  from assms have "length (drop a p) \<le> b" by simp
  then have "take b (drop a p) = drop a p" by simp
  then show ?thesis by simp
qed

lemma index_cut:
  fixes n_test :: int
  assumes "length p = n" "n_train = int n - n_test"
  shows "take (nat n_test) p @ take (nat n_train) (drop (nat n_test) p) = p"
proof (cases "n_test \<le> int n")
  case True
  then have "int (length p) \<le> int (nat n_test) + int (nat n_train)" using assms by simp
  then have "length p \<le> nat n_test + nat n_train" by (simp only: of_nat_add [symmetric] of_nat_le_iff)
  then show ?thesis by (rule take_take_drop)
next
  case False
  then have "length p \<le> nat n_test" using assms by simp
  then show ?thesis by simp
qed

lemma perm_length:
  assumes "mset p = mset [0..<n]"
  shows "length p = n"
  using mset_eq_length [OF assms] by simp

lemma perm_set:
  assumes "mset p = mset [0..<n]"
  shows "set p = {..<n}"
proof -
  have "set p = set_mset (mset p)" by simp
  also have "\<dots> = set_mset (mset [0..<n])" by (simp only: assms)
  also have "\<dots> = {..<n}" by (simp add: atLeast0LessThan)
  finally show ?thesis .
qed

lemma mset_map_nth:
  assumes "mset p = mset [0..<length xs]"
  shows "mset (map ((!) xs) p) = mset xs"
proof -
  have "mset (map ((!) xs) p) = image_mset ((!) xs) (mset p)" by simp
  also have "\<dots> = mset (map ((!) xs) [0..<length xs])" using assms by simp
  also have "\<dots> = mset xs" by (simp add: map_nth)
  finally show ?thesis .
qed

lemma map_nth_map:
  assumes "set is \<subseteq> {..<length m}"
  shows "map ((!) (map f m)) is = map f (map ((!) m) is)"
  using assms by (induction "is") auto

lemma train_test_split_indices:
  assumes that: "length (perm (length xs)) = length xs"
      and "train_test_split perm xs ys t = Inr (xtr, xte, ytr, yte)"
  shows "\<exists>a b. xtr = map ((!) xs) (take b (drop a (perm (length xs)))) \<and>
           xte = map ((!) xs) (take a (perm (length xs))) \<and>
           ytr = map ((!) ys) (take b (drop a (perm (length xs)))) \<and>
           yte = map ((!) ys) (take a (perm (length xs))) \<and>
           take a (perm (length xs)) @ take b (drop a (perm (length xs))) = perm (length xs)"
proof -
  let ?n = "length xs"
  let ?nt = "\<lceil>fmul t (to_float (of_nat ?n))\<rceil>"
  have cut: "take (nat ?nt) (perm ?n) @ take (nat (int ?n - ?nt)) (drop (nat ?nt) (perm ?n)) = perm ?n"
    by (rule index_cut [OF that refl])
  from assms(2) have nv: "\<not> (t \<le> 0 \<or> 1 \<le> t)"
    unfolding train_test_split_def by (cases "t \<le> 0 \<or> 1 \<le> t") simp_all
  from assms(2) nv have ntr: "int ?n - ?nt \<noteq> 0"
    unfolding train_test_split_def Let_def by (cases "int ?n - ?nt = 0") simp_all
  from assms(2) have "xtr = map ((!) xs) (take (nat (int ?n - ?nt)) (drop (nat ?nt) (perm ?n)))"
    "xte = map ((!) xs) (take (nat ?nt) (perm ?n))"
    "ytr = map ((!) ys) (take (nat (int ?n - ?nt)) (drop (nat ?nt) (perm ?n)))"
    "yte = map ((!) ys) (take (nat ?nt) (perm ?n))"
    unfolding train_test_split_def Let_def if_not_P [OF nv] if_not_P [OF ntr] by simp_all
  with cut show ?thesis by blast
qed

lemma train_test_split_pairs:
  assumes split: "train_test_split perm (map fst m) (map snd m) t = Inr (xtr, xte, ytr, yte)"
      and perm: "mset (perm (length m)) = mset [0..<length m]"
  shows "\<exists>mtr mte. xtr = map fst mtr \<and> ytr = map snd mtr \<and>
           xte = map fst mte \<and> yte = map snd mte \<and>
           mset mtr + mset mte = mset m"
proof -
  let ?p = "perm (length m)"
  have len: "length (perm (length (map fst m))) = length (map fst m)"
    using perm_length [OF perm] by simp
  from train_test_split_indices [OF len split] obtain a b where
    xtr: "xtr = map ((!) (map fst m)) (take b (drop a ?p))" and
    xte: "xte = map ((!) (map fst m)) (take a ?p)" and
    ytr: "ytr = map ((!) (map snd m)) (take b (drop a ?p))" and
    yte: "yte = map ((!) (map snd m)) (take a ?p)" and
    cut: "take a ?p @ take b (drop a ?p) = ?p"
    by auto
  have "set (take a ?p) \<subseteq> set ?p" by (rule set_take_subset)
  then have ite: "set (take a ?p) \<subseteq> {..<length m}" using perm_set [OF perm] by simp
  have "set (take b (drop a ?p)) \<subseteq> set ?p"
    by (meson set_take_subset set_drop_subset subset_trans)
  then have itr: "set (take b (drop a ?p)) \<subseteq> {..<length m}" using perm_set [OF perm] by simp
  let ?mtr = "map ((!) m) (take b (drop a ?p))"
  let ?mte = "map ((!) m) (take a ?p)"
  have "mset ?mtr + mset ?mte = mset (map ((!) m) (take a ?p @ take b (drop a ?p)))"
    by simp
  also have "\<dots> = mset m" unfolding cut by (rule mset_map_nth [OF perm])
  finally have part: "mset ?mtr + mset ?mte = mset m" .
  have "xtr = map fst ?mtr" unfolding xtr by (rule map_nth_map [OF itr])
  moreover have "ytr = map snd ?mtr" unfolding ytr by (rule map_nth_map [OF itr])
  moreover have "xte = map fst ?mte" unfolding xte by (rule map_nth_map [OF ite])
  moreover have "yte = map snd ?mte" unfolding yte by (rule map_nth_map [OF ite])
  ultimately show ?thesis using part by blast
qed

lemma split_filenames_pairs:
  assumes split: "split_filenames perm (map fst m) (map snd m) v t
                  = Inr (tri, trl, vi, vl, tei, tel)"
      and perm: "\<forall>n. mset (perm n) = mset [0..<n]"
  shows "\<exists>mtr mv mte. tri = map fst mtr \<and> trl = map snd mtr \<and>
           vi = map fst mv \<and> vl = map snd mv \<and>
           tei = map fst mte \<and> tel = map snd mte \<and>
           mset mtr + mset mv + mset mte = mset m"
proof -
  obtain tmpi tmpl where
    s1: "train_test_split perm (map fst m) (map snd m) (fadd v t) = Inr (tri, tmpi, trl, tmpl)"
    and s2': "(case fdiv t (fadd v t) of Inl e \<Rightarrow> Inl e
              | Inr test_size \<Rightarrow>
                  (case train_test_split perm tmpi tmpl test_size of Inl e \<Rightarrow> Inl e
                   | Inr (val_images, test_images, val_labels, test_labels) \<Rightarrow>
                       Inr (tri, trl, val_images, val_labels, test_images, test_labels)))
              = Inr (tri, trl, vi, vl, tei, tel)"
  proof (cases "train_test_split perm (map fst m) (map snd m) (fadd v t)")
    case (Inl e)
    with split show ?thesis by (simp add: split_filenames_def)
  next
    case (Inr r)
    obtain a b c d where r: "r = (a, b, c, d)" by (cases r) auto
    from split Inr r have "a = tri" "c = trl"
      by (auto simp add: split_filenames_def split: sum.splits)
    with split Inr r that show ?thesis by (simp add: split_filenames_def)
  qed
  obtain ts where s2: "train_test_split perm tmpi tmpl ts = Inr (vi, tei, vl, tel)"
  proof (cases "fdiv t (fadd v t)")
    case (Inl e)
    with s2' show ?thesis by simp
  next
    case (Inr ts)
    show ?thesis
    proof (cases "train_test_split perm tmpi tmpl ts")
      case (Inl e)
      with s2' \<open>fdiv t (fadd v t) = Inr ts\<close> show ?thesis by simp
    next
      case (Inr r)
      obtain a b c d where r: "r = (a, b, c, d)" by (cases r) auto
      from s2' \<open>fdiv t (fadd v t) = Inr ts\<close> Inr r that [of ts] show ?thesis by simp
    qed
  qed
  from train_test_split_pairs [OF s1] perm obtain mtr mtmp where
    a: "tri = map fst mtr" "trl = map snd mtr" "tmpi = map fst mtmp" "tmpl = map snd mtmp"
    and p1: "mset mtr + mset mtmp = mset m"
    by blast
  from s2 have s3: "train_test_split perm (map fst mtmp) (map snd mtmp) ts = Inr (vi, tei, vl, tel)"
    unfolding a .
  from train_test_split_pairs [OF s3] perm obtain mv mte where
    b: "vi = map fst mv" "vl = map snd mv" "tei = map fst mte" "tel = map snd mte"
    and p2: "mset mv + mset mte = mset mtmp"
    by blast
  have "mset mtr + mset mv + mset mte = mset m" using p1 p2 by (simp add: add.assoc)
  with a b show ?thesis by blast
qed

section \<open>Matching images and labels\<close>

lemma concat_filter_map:
  "concat (map (\<lambda>x. if P x then [g x] else []) ys) = map g (filter P ys)"
  by (induction ys) auto

lemma comprehension_nth:
  "concat (map (\<lambda>i. if P (xs ! i) then [g (xs ! i)] else []) [0..<length xs])
   = map g (filter P xs)"
proof -
  have "map (\<lambda>i. if P (xs ! i) then [g (xs ! i)] else []) [0..<length xs]
        = map (\<lambda>x. if P x then [g x] else []) (map ((!) xs) [0..<length xs])"
    by simp
  also have "\<dots> = map (\<lambda>x. if P x then [g x] else []) xs"
    by (simp only: map_nth)
  finally show ?thesis by (simp only: concat_filter_map)
qed

lemma matched_files_eq:
  "matched_files image_files label_files =
     map (\<lambda>f. (f, fst (splitext f) @ ''.txt''))
       (filter (\<lambda>f. fst (splitext f) \<in> (\<lambda>l. fst (splitext l)) ` set label_files)
          image_files)"
proof -
  let ?b = "\<lambda>f. fst (splitext f)"
  let ?S = "?b ` set label_files"
  have "matched_files image_files label_files =
        concat (map (\<lambda>i. if ?b (image_files ! i) \<in> ?S
                          then [(image_files ! i, ?b (image_files ! i) @ ''.txt'')] else [])
                  [0..<length image_files])"
    unfolding matched_files_def Let_def
    by (rule arg_cong [where f = concat]) (rule map_cong, simp_all)
  then show ?thesis
    by (simp only: comprehension_nth [where P = "\<lambda>f. ?b f \<in> ?S"
          and g = "\<lambda>f. (f, ?b f @ ''.txt'')"])
qed

section \<open>Determinism\<close>

lemma sort_cong_mset:
  fixes xs ys :: "'a::linorder list"
  assumes "mset xs = mset ys"
  shows "sort xs = sort ys"
proof -
  have "sort xs = sorted_list_of_multiset (mset xs)" by simp
  also have "\<dots> = sorted_list_of_multiset (mset ys)" by (simp only: assms)
  also have "\<dots> = sort ys" by simp
  finally show ?thesis .
qed

lemma matched_files_label_set:
  assumes "set ls1 = set ls2"
  shows "matched_files is ls1 = matched_files is ls2"
  by (simp only: matched_files_eq assms)

lemma distinct_matched_files:
  assumes "distinct image_files"
  shows "distinct (matched_files image_files label_files)"
  unfolding matched_files_eq
  by (rule distinct_map [THEN iffD2]) (simp add: assms inj_on_def)

text \<open>
  C4. The assignment that \<^verbatim>\<open>split_data\<close> computes depends on the pools only through
  the names they hold: two file systems whose image pools hold the same names and whose
  label pools hold the same names, in whatever order \<^verbatim>\<open>os.listdir\<close> returns them, give
  the same six lists for the same ratios (the listings are sorted before the split, and
  the permutation of the seed 42 is a function of the number of matched pairs).
\<close>

theorem partition_assignment_deterministic:
  assumes "map_option mset (fs1 image_dir) = map_option mset (fs2 image_dir)"
      and "map_option set (fs1 label_dir) = map_option set (fs2 label_dir)"
  shows "partition_assignment perm image_dir label_dir val_ratio test_ratio fs1
       = partition_assignment perm image_dir label_dir val_ratio test_ratio fs2"
proof (cases "fs1 image_dir")
  case None
  with assms(1) have "fs2 image_dir = None" by simp
  with None show ?thesis by (simp add: partition_assignment_def listdir_def)
next
  case (Some il1)
  with assms(1) obtain il2 where il2: "fs2 image_dir = Some il2" and m: "mset il1 = mset il2"
    by (cases "fs2 image_dir") auto
  show ?thesis
  proof (cases "fs1 label_dir")
    case None
    with assms(2) have "fs2 label_dir = None" by simp
    with None Some il2 show ?thesis by (simp add: partition_assignment_def listdir_def)
  next
    case (Some ll1)
    with assms(2) obtain ll2 where ll2: "fs2 label_dir = Some ll2" and s: "set ll1 = set ll2"
      by (cases "fs2 label_dir") auto
    have "set (sort ll1) = set (sort ll2)" using s by simp
    then have "matched_files (sort il1) (sort ll1) = matched_files (sort il1) (sort ll2)"
      by (rule matched_files_label_set)
    then have "matched_files (sort il1) (sort ll1) = matched_files (sort il2) (sort ll2)"
      by (simp only: sort_cong_mset [OF m])
    with Some \<open>fs1 image_dir = Some il1\<close> il2 ll2 show ?thesis
      by (simp add: partition_assignment_def listdir_def)
  qed
qed

lemma mset_pool_images:
  "mset [''b.jpg'', ''a.jpg'', ''d.jpg'', ''c.png''] = mset [''d.jpg'', ''c.png'', ''b.jpg'', ''a.jpg'']"
  by simp

lemma set_pool_labels:
  "set [''c.txt'', ''e.txt'', ''a.txt'', ''b.txt''] = set [''a.txt'', ''b.txt'', ''c.txt'', ''e.txt'']"
  by auto

theorem partition_assignment_deterministic_witness:
  "map_option mset (pool_fs ''data/all_images'')
     = map_option mset (pool_fs_relisted ''data/all_images'') \<and>
   map_option set (pool_fs ''data/all_labels'')
     = map_option set (pool_fs_relisted ''data/all_labels'') \<and>
   partition_assignment seeded ''data/all_images'' ''data/all_labels''
     (to_float (2 / 10)) (to_float (2 / 10)) pool_fs
   = partition_assignment seeded ''data/all_images'' ''data/all_labels''
     (to_float (2 / 10)) (to_float (2 / 10)) pool_fs_relisted"
proof -
  have i: "map_option mset (pool_fs ''data/all_images'')
           = map_option mset (pool_fs_relisted ''data/all_images'')"
    unfolding pool_fs_def pool_fs_relisted_def using mset_pool_images by simp
  have l: "map_option set (pool_fs ''data/all_labels'')
           = map_option set (pool_fs_relisted ''data/all_labels'')"
    unfolding pool_fs_def pool_fs_relisted_def using set_pool_labels by simp
  from partition_assignment_deterministic
         [where ?fs1.0 = pool_fs and ?fs2.0 = pool_fs_relisted
            and image_dir = "''data/all_images''" and label_dir = "''data/all_labels''", OF i l]
       i l
  show ?thesis by blast
qed

section \<open>The assignment is a partition of the matched pairs\<close>

lemma partition_assignment_split:
  assumes "fs image_dir = Some image_listing" "fs label_dir = Some label_listing"
  shows "partition_assignment perm image_dir label_dir val_ratio test_ratio fs
         = split_filenames perm
             (map fst (matched_files (sort image_listing) (sort label_listing)))
             (map snd (matched_files (sort image_listing) (sort label_listing)))
             val_ratio test_ratio"
  using assms by (simp add: partition_assignment_def listdir_def Let_def)

lemma partition_assignment_pairs:
  assumes perm: "\<forall>n. mset (perm n) = mset [0..<n]"
      and img: "fs image_dir = Some image_listing"
      and lbl: "fs label_dir = Some label_listing"
      and res: "partition_assignment perm image_dir label_dir val_ratio test_ratio fs
                = Inr (tri, trl, vi, vl, tei, tel)"
  shows "tri = map fst (zip tri trl) \<and> trl = map snd (zip tri trl) \<and>
         vi = map fst (zip vi vl) \<and> vl = map snd (zip vi vl) \<and>
         tei = map fst (zip tei tel) \<and> tel = map snd (zip tei tel) \<and>
         mset (zip tri trl) + mset (zip vi vl) + mset (zip tei tel)
           = mset (matched_files (sort image_listing) (sort label_listing))"
proof -
  let ?M = "matched_files (sort image_listing) (sort label_listing)"
  from res have "split_filenames perm (map fst ?M) (map snd ?M) val_ratio test_ratio
                 = Inr (tri, trl, vi, vl, tei, tel)"
    by (simp only: partition_assignment_split [OF img lbl])
  from split_filenames_pairs [OF this perm] obtain mtr mv mte where
    e: "tri = map fst mtr" "trl = map snd mtr" "vi = map fst mv" "vl = map snd mv"
       "tei = map fst mte" "tel = map snd mte"
    and p: "mset mtr + mset mv + mset mte = mset ?M"
    by blast
  have z: "zip tri trl = mtr" "zip vi vl = mv" "zip tei tel = mte"
    unfolding e by (simp_all add: zip_map_fst_snd)
  show ?thesis unfolding z using e p by simp
qed

text \<open>
  C1. Whenever the two calls of \<^verbatim>\<open>train_test_split\<close> return, each of the three
  buckets is a list of images and a list of labels that are the two projections of one
  list of pairs (image and label at the same position, the two lists of the same
  length), and these three lists of pairs are an exact partition of the matched pairs:
  together they hold every matched pair exactly once (equal multisets, equal sets), no
  pair is in two of them, and none holds a pair twice.
\<close>

theorem split_is_exact_partition:
  assumes perm: "\<forall>n. mset (perm n) = mset [0..<n]"
      and img: "fs image_dir = Some image_listing"
      and lbl: "fs label_dir = Some label_listing"
      and dist: "distinct image_listing"
      and res: "partition_assignment perm image_dir label_dir val_ratio test_ratio fs
                = Inr (tri, trl, vi, vl, tei, tel)"
  shows "tri = map fst (zip tri trl) \<and> trl = map snd (zip tri trl) \<and>
         vi = map fst (zip vi vl) \<and> vl = map snd (zip vi vl) \<and>
         tei = map fst (zip tei tel) \<and> tel = map snd (zip tei tel) \<and>
         mset (zip tri trl) + mset (zip vi vl) + mset (zip tei tel)
           = mset (matched_files (sort image_listing) (sort label_listing)) \<and>
         set (zip tri trl) \<union> set (zip vi vl) \<union> set (zip tei tel)
           = set (matched_files (sort image_listing) (sort label_listing)) \<and>
         set (zip tri trl) \<inter> set (zip vi vl) = {} \<and>
         set (zip tri trl) \<inter> set (zip tei tel) = {} \<and>
         set (zip vi vl) \<inter> set (zip tei tel) = {} \<and>
         distinct (zip tri trl) \<and> distinct (zip vi vl) \<and> distinct (zip tei tel)"
proof -
  let ?M = "matched_files (sort image_listing) (sort label_listing)"
  let ?tr = "zip tri trl" and ?v = "zip vi vl" and ?te = "zip tei tel"
  from partition_assignment_pairs [OF perm img lbl res]
  have e: "tri = map fst ?tr \<and> trl = map snd ?tr \<and> vi = map fst ?v \<and> vl = map snd ?v \<and>
           tei = map fst ?te \<and> tel = map snd ?te"
    and p: "mset ?tr + mset ?v + mset ?te = mset ?M" by blast+
  from p have m: "mset (?tr @ ?v @ ?te) = mset ?M" by (simp add: add.assoc)
  have "distinct ?M" by (rule distinct_matched_files) (simp add: dist)
  then have d: "distinct (?tr @ ?v @ ?te)" using mset_eq_imp_distinct_iff [OF m] by simp
  have s: "set (?tr @ ?v @ ?te) = set ?M" by (rule mset_eq_setD [OF m])
  from s have u: "set ?tr \<union> set ?v \<union> set ?te = set ?M" by (simp add: Un_assoc)
  from d have "set ?tr \<inter> set ?v = {}" "set ?tr \<inter> set ?te = {}" "set ?v \<inter> set ?te = {}"
    "distinct ?tr" "distinct ?v" "distinct ?te"
    by auto
  with e p u show ?thesis by blast
qed

lemma seeded_permutes: "\<forall>n. mset (seeded n) = mset [0..<n]"
  by (simp add: seeded_def)

lemma pool_fs_images:
  "pool_fs ''data/all_images'' = Some [''b.jpg'', ''a.jpg'', ''d.jpg'', ''c.png'']"
  by (simp add: pool_fs_def)

lemma pool_fs_labels:
  "pool_fs ''data/all_labels'' = Some [''c.txt'', ''e.txt'', ''a.txt'', ''b.txt'']"
  by (simp add: pool_fs_def)

lemma pool_fs_assignment:
  "partition_assignment seeded ''data/all_images'' ''data/all_labels''
     (to_float (2 / 10)) (to_float (2 / 10)) pool_fs
   = Inr ([''a.jpg''], [''a.txt''], [''c.png''], [''c.txt''], [''b.jpg''], [''b.txt''])"
  by code_simp

theorem split_is_exact_partition_witness:
  "(\<forall>n. mset (seeded n) = mset [0..<n]) \<and>
   partition_assignment seeded ''data/all_images'' ''data/all_labels''
     (to_float (2 / 10)) (to_float (2 / 10)) pool_fs
   = Inr ([''a.jpg''], [''a.txt''], [''c.png''], [''c.txt''], [''b.jpg''], [''b.txt'']) \<and>
   [''c.png''] = map fst (zip [''c.png''] [''c.txt'']) \<and>
   [''c.txt''] = map snd (zip [''c.png''] [''c.txt'']) \<and>
   mset (zip [''a.jpg''] [''a.txt'']) + mset (zip [''c.png''] [''c.txt''])
     + mset (zip [''b.jpg''] [''b.txt''])
   = mset (matched_files (sort [''b.jpg'', ''a.jpg'', ''d.jpg'', ''c.png''])
             (sort [''c.txt'', ''e.txt'', ''a.txt'', ''b.txt'']))"
proof -
  have d: "distinct [''b.jpg'', ''a.jpg'', ''d.jpg'', ''c.png'']" by simp
  from split_is_exact_partition
         [OF seeded_permutes pool_fs_images pool_fs_labels d pool_fs_assignment]
       seeded_permutes pool_fs_assignment
  show ?thesis by blast
qed

section \<open>The matched set and the orphans\<close>

lemma rfind_absent: "c \<notin> set p \<Longrightarrow> rfind c p = - 1"
  by (simp add: rfind_def)

lemma rfind_txt: "rfind CHR ''.'' (b @ ''.txt'') = int (length b)"
  by (simp add: rfind_def)

lemma rfind_slash_txt: "CHR ''/'' \<notin> set b \<Longrightarrow> rfind CHR ''/'' (b @ ''.txt'') = - 1"
  by (simp add: rfind_def)

lemma splitext_txt:
  assumes "CHR ''/'' \<notin> set b" "\<exists>c\<in>set b. c \<noteq> CHR ''.''"
  shows "splitext (b @ ''.txt'') = (b, ''.txt'')"
  using assms
  by (simp add: splitext_def Let_def rfind_txt rfind_slash_txt list_ex_iff)

lemma base_name_plain:
  assumes "CHR ''/'' \<notin> set f" "\<exists>c\<in>set f. c \<noteq> CHR ''.''"
  shows "CHR ''/'' \<notin> set (fst (splitext f)) \<and> (\<exists>c\<in>set (fst (splitext f)). c \<noteq> CHR ''.'')"
proof (cases "splitext f = (f, [])")
  case True
  with assms show ?thesis by simp
next
  case False
  then have c: "list_ex (\<lambda>c. c \<noteq> CHR ''.'') (take (nat (rfind CHR ''.'' f)) f)"
    and e: "fst (splitext f) = take (nat (rfind CHR ''.'' f)) f"
    using assms(1)
    by (auto simp add: splitext_def Let_def rfind_absent split: if_splits)
  from assms(1) have "CHR ''/'' \<notin> set (take (nat (rfind CHR ''.'' f)) f)"
    by (meson in_set_takeD)
  with c e show ?thesis by (simp add: list_ex_iff)
qed

lemma base_of_label_name:
  assumes "CHR ''/'' \<notin> set f" "\<exists>c\<in>set f. c \<noteq> CHR ''.''"
  shows "fst (splitext (fst (splitext f) @ ''.txt'')) = fst (splitext f)"
  using base_name_plain [OF assms] by (simp add: splitext_txt)


lemma matched_files_refines: "matched_files is ls = matched_pairs_spec is ls"
  by (simp add: matched_files_eq matched_pairs_spec_def)

lemma in_matched_files:
  "(i, l) \<in> set (matched_files is ls) \<longleftrightarrow>
     i \<in> set is \<and> fst (splitext i) \<in> (\<lambda>l. fst (splitext l)) ` set ls \<and>
     l = fst (splitext i) @ ''.txt''"
  unfolding matched_files_eq by auto

lemma assignment_sets:
  assumes perm: "\<forall>n. mset (perm n) = mset [0..<n]"
      and img: "fs image_dir = Some image_listing"
      and lbl: "fs label_dir = Some label_listing"
      and res: "partition_assignment perm image_dir label_dir val_ratio test_ratio fs
                = Inr (tri, trl, vi, vl, tei, tel)"
  shows "set tri \<union> set vi \<union> set tei
           = fst ` set (matched_files (sort image_listing) (sort label_listing))"
    and "set trl \<union> set vl \<union> set tel
           = snd ` set (matched_files (sort image_listing) (sort label_listing))"
proof -
  let ?M = "matched_files (sort image_listing) (sort label_listing)"
  let ?tr = "zip tri trl" and ?v = "zip vi vl" and ?te = "zip tei tel"
  from partition_assignment_pairs [OF perm img lbl res]
  have e: "tri = map fst ?tr" "trl = map snd ?tr" "vi = map fst ?v" "vl = map snd ?v"
    "tei = map fst ?te" "tel = map snd ?te"
    and p: "mset ?tr + mset ?v + mset ?te = mset ?M"
    by blast+
  from p have "mset (?tr @ ?v @ ?te) = mset ?M" by (simp add: add.assoc)
  then have "set (?tr @ ?v @ ?te) = set ?M" by (rule mset_eq_setD)
  then have s: "set ?M = set ?tr \<union> set ?v \<union> set ?te" by (simp add: Un_assoc)
  have "set tri = fst ` set ?tr" "set vi = fst ` set ?v" "set tei = fst ` set ?te"
    using e(1,3,5) by (metis set_map)+
  then show "set tri \<union> set vi \<union> set tei = fst ` set ?M"
    unfolding s by (simp add: image_Un)
  have "set trl = snd ` set ?tr" "set vl = snd ` set ?v" "set tel = snd ` set ?te"
    using e(2,4,6) by (metis set_map)+
  then show "set trl \<union> set vl \<union> set tel = snd ` set ?M"
    unfolding s by (simp add: image_Un)
qed

text \<open>
  C5. The matched list that \<^verbatim>\<open>split_data\<close> builds is the one the specification
  describes: the images of the sorted listing whose base name is among the label base
  names, in that order, each with the label name made of its base name and
  \<^verbatim>\<open>.txt\<close>. Every image of an output split is an image of the pool whose base name is
  the base name of some label, so an image without a matching label is in no split.
  Every label name of an output split is the \<^verbatim>\<open>.txt\<close> name of such an image; and when
  no image name contains \<^verbatim>\<open>/\<close> or consists of dots only, its base name is the base
  name of an image, so a label without a matching image is in no split.
\<close>

theorem matched_set_and_orphans:
  assumes perm: "\<forall>n. mset (perm n) = mset [0..<n]"
      and img: "fs image_dir = Some image_listing"
      and lbl: "fs label_dir = Some label_listing"
      and res: "partition_assignment perm image_dir label_dir val_ratio test_ratio fs
                = Inr (tri, trl, vi, vl, tei, tel)"
  shows "matched_files (sort image_listing) (sort label_listing)
           = matched_pairs_spec (sort image_listing) (sort label_listing) \<and>
         (\<forall>i \<in> set tri \<union> set vi \<union> set tei.
            i \<in> set image_listing \<and>
            fst (splitext i) \<in> (\<lambda>l. fst (splitext l)) ` set label_listing) \<and>
         (\<forall>l \<in> set trl \<union> set vl \<union> set tel.
            \<exists>i \<in> set image_listing. l = fst (splitext i) @ ''.txt'' \<and>
              fst (splitext i) \<in> (\<lambda>l. fst (splitext l)) ` set label_listing) \<and>
         ((\<forall>i \<in> set image_listing. CHR ''/'' \<notin> set i \<and> (\<exists>c \<in> set i. c \<noteq> CHR ''.'')) \<longrightarrow>
          (\<forall>l \<in> set trl \<union> set vl \<union> set tel.
             fst (splitext l) \<in> (\<lambda>i. fst (splitext i)) ` set image_listing))"
proof -
  let ?M = "matched_files (sort image_listing) (sort label_listing)"
  note sets = assignment_sets [OF perm img lbl res]
  have a: "?M = matched_pairs_spec (sort image_listing) (sort label_listing)"
    by (rule matched_files_refines)
  have b: "\<forall>i \<in> set tri \<union> set vi \<union> set tei.
            i \<in> set image_listing \<and>
            fst (splitext i) \<in> (\<lambda>l. fst (splitext l)) ` set label_listing"
  proof
    fix i assume "i \<in> set tri \<union> set vi \<union> set tei"
    then obtain l where "(i, l) \<in> set ?M" unfolding sets(1) by auto
    then show "i \<in> set image_listing \<and>
            fst (splitext i) \<in> (\<lambda>l. fst (splitext l)) ` set label_listing"
      by (simp add: in_matched_files)
  qed
  have c: "\<forall>l \<in> set trl \<union> set vl \<union> set tel.
            \<exists>i \<in> set image_listing. l = fst (splitext i) @ ''.txt'' \<and>
              fst (splitext i) \<in> (\<lambda>l. fst (splitext l)) ` set label_listing"
  proof
    fix l assume "l \<in> set trl \<union> set vl \<union> set tel"
    then obtain i where "(i, l) \<in> set ?M" unfolding sets(2) by auto
    then have "i \<in> set image_listing \<and> l = fst (splitext i) @ ''.txt'' \<and>
      fst (splitext i) \<in> (\<lambda>l. fst (splitext l)) ` set label_listing"
      by (simp add: in_matched_files)
    then show "\<exists>i \<in> set image_listing. l = fst (splitext i) @ ''.txt'' \<and>
              fst (splitext i) \<in> (\<lambda>l. fst (splitext l)) ` set label_listing"
      by blast
  qed
  have d: "(\<forall>i \<in> set image_listing. CHR ''/'' \<notin> set i \<and> (\<exists>c \<in> set i. c \<noteq> CHR ''.'')) \<longrightarrow>
          (\<forall>l \<in> set trl \<union> set vl \<union> set tel.
             fst (splitext l) \<in> (\<lambda>i. fst (splitext i)) ` set image_listing)"
  proof (intro impI ballI)
    fix l
    assume wf: "\<forall>i \<in> set image_listing. CHR ''/'' \<notin> set i \<and> (\<exists>c \<in> set i. c \<noteq> CHR ''.'')"
      and "l \<in> set trl \<union> set vl \<union> set tel"
    with c obtain i where i: "i \<in> set image_listing" "l = fst (splitext i) @ ''.txt''"
      by blast
    from wf i(1) have "CHR ''/'' \<notin> set i" "\<exists>c \<in> set i. c \<noteq> CHR ''.''" by blast+
    then have "fst (splitext l) = fst (splitext i)"
      unfolding i(2) by (rule base_of_label_name)
    with i(1) show "fst (splitext l) \<in> (\<lambda>i. fst (splitext i)) ` set image_listing"
      by blast
  qed
  from a b c d show ?thesis by blast
qed

lemma pool_names_plain:
  "\<forall>i \<in> set [''b.jpg'', ''a.jpg'', ''d.jpg'', ''c.png''].
     CHR ''/'' \<notin> set i \<and> (\<exists>c \<in> set i. c \<noteq> CHR ''.'')"
  by simp

theorem matched_set_and_orphans_witness:
  "(\<forall>n. mset (seeded n) = mset [0..<n]) \<and>
   partition_assignment seeded ''data/all_images'' ''data/all_labels''
     (to_float (2 / 10)) (to_float (2 / 10)) pool_fs
   = Inr ([''a.jpg''], [''a.txt''], [''c.png''], [''c.txt''], [''b.jpg''], [''b.txt'']) \<and>
   matched_files (sort [''b.jpg'', ''a.jpg'', ''d.jpg'', ''c.png''])
     (sort [''c.txt'', ''e.txt'', ''a.txt'', ''b.txt''])
   = matched_pairs_spec (sort [''b.jpg'', ''a.jpg'', ''d.jpg'', ''c.png''])
       (sort [''c.txt'', ''e.txt'', ''a.txt'', ''b.txt'']) \<and>
   fst (splitext ''c.png'')
     \<in> (\<lambda>l. fst (splitext l)) ` set [''c.txt'', ''e.txt'', ''a.txt'', ''b.txt''] \<and>
   fst (splitext ''c.txt'')
     \<in> (\<lambda>i. fst (splitext i)) ` set [''b.jpg'', ''a.jpg'', ''d.jpg'', ''c.png'']"
proof -
  note t = matched_set_and_orphans
             [OF seeded_permutes pool_fs_images pool_fs_labels pool_fs_assignment]
  from t have a: "matched_files (sort [''b.jpg'', ''a.jpg'', ''d.jpg'', ''c.png''])
       (sort [''c.txt'', ''e.txt'', ''a.txt'', ''b.txt''])
     = matched_pairs_spec (sort [''b.jpg'', ''a.jpg'', ''d.jpg'', ''c.png''])
         (sort [''c.txt'', ''e.txt'', ''a.txt'', ''b.txt''])"
    by (rule conjunct1)
  from t have "\<forall>i \<in> set [''a.jpg''] \<union> set [''c.png''] \<union> set [''b.jpg''].
      i \<in> set [''b.jpg'', ''a.jpg'', ''d.jpg'', ''c.png''] \<and>
      fst (splitext i) \<in> (\<lambda>l. fst (splitext l)) ` set [''c.txt'', ''e.txt'', ''a.txt'', ''b.txt'']"
    by (rule conjunct2 [THEN conjunct1])
  then have b: "fst (splitext ''c.png'')
     \<in> (\<lambda>l. fst (splitext l)) ` set [''c.txt'', ''e.txt'', ''a.txt'', ''b.txt'']"
    by simp
  from t pool_names_plain have "\<forall>l \<in> set [''a.txt''] \<union> set [''c.txt''] \<union> set [''b.txt''].
      fst (splitext l) \<in> (\<lambda>i. fst (splitext i)) ` set [''b.jpg'', ''a.jpg'', ''d.jpg'', ''c.png'']"
    by (rule conjunct2 [THEN conjunct2, THEN conjunct2, THEN mp])
  then have c: "fst (splitext ''c.txt'')
     \<in> (\<lambda>i. fst (splitext i)) ` set [''b.jpg'', ''a.jpg'', ''d.jpg'', ''c.png'']"
    by simp
  from seeded_permutes pool_fs_assignment a b c show ?thesis by blast
qed

section \<open>Directories and moves\<close>

lemma join2_plain:
  assumes "b \<noteq> []" "hd b \<noteq> CHR ''/''"
  shows "join2 p b = out_prefix p @ b"
  using assms by (simp add: join2_def out_prefix_def)

lemma out_prefix_append:
  assumes "b \<noteq> []" "last b \<noteq> CHR ''/''"
  shows "out_prefix (p @ b) = p @ b @ ''/''"
  using assms by (simp add: out_prefix_def)

lemma path_join_two:
  assumes "a \<noteq> []" "hd a \<noteq> CHR ''/''" "last a \<noteq> CHR ''/''" "b \<noteq> []" "hd b \<noteq> CHR ''/''"
  shows "path_join p [a, b] = out_prefix p @ a @ ''/'' @ b"
proof -
  have "path_join p [a, b] = join2 (join2 p a) b" by (simp add: path_join_def)
  also have "\<dots> = join2 (out_prefix p @ a) b" by (simp only: join2_plain [OF assms(1,2)])
  also have "\<dots> = out_prefix (out_prefix p @ a) @ b" by (rule join2_plain [OF assms(4,5)])
  also have "\<dots> = (out_prefix p @ a @ ''/'') @ b"
    by (simp only: out_prefix_append [OF assms(1,3)])
  finally show ?thesis by simp
qed

lemma path_join_train_images: "path_join p [''train'', ''images''] = out_prefix p @ ''train/images''"
  using path_join_two [of "''train''" "''images''" p] by simp
lemma path_join_train_labels: "path_join p [''train'', ''labels''] = out_prefix p @ ''train/labels''"
  using path_join_two [of "''train''" "''labels''" p] by simp
lemma path_join_valid_images: "path_join p [''valid'', ''images''] = out_prefix p @ ''valid/images''"
  using path_join_two [of "''valid''" "''images''" p] by simp
lemma path_join_valid_labels: "path_join p [''valid'', ''labels''] = out_prefix p @ ''valid/labels''"
  using path_join_two [of "''valid''" "''labels''" p] by simp
lemma path_join_test_images: "path_join p [''test'', ''images''] = out_prefix p @ ''test/images''"
  using path_join_two [of "''test''" "''images''" p] by simp
lemma path_join_test_labels: "path_join p [''test'', ''labels''] = out_prefix p @ ''test/labels''"
  using path_join_two [of "''test''" "''labels''" p] by simp

lemmas path_join_out = path_join_train_images path_join_train_labels path_join_valid_images
  path_join_valid_labels path_join_test_images path_join_test_labels

lemma output_dirs_eq:
  "output_dirs p = [out_prefix p @ ''train/images'', out_prefix p @ ''train/labels'',
                    out_prefix p @ ''valid/images'', out_prefix p @ ''valid/labels'',
                    out_prefix p @ ''test/images'', out_prefix p @ ''test/labels'']"
  by (simp add: output_dirs_def path_join_out)

lemma distinct_output_dirs: "distinct (output_dirs p)"
  unfolding output_dirs_eq by simp

lemma makedirs_apply:
  "makedirs p fs d = (if d = p \<and> fs d = None then Some [] else fs d)"
  by (auto simp add: makedirs_def split: option.splits)


lemma makedirs_list_apply:
  "foldl (\<lambda>fs d. makedirs d fs) fs ds d
   = (if d \<in> set ds \<and> fs d = None then Some [] else fs d)"
proof (induction ds arbitrary: fs)
  case Nil
  show ?case by simp
next
  case (Cons a ds)
  have "foldl (\<lambda>fs d. makedirs d fs) fs (a # ds) d
        = foldl (\<lambda>fs d. makedirs d fs) (makedirs a fs) ds d"
    by simp
  also have "\<dots> = (if d \<in> set ds \<and> makedirs a fs d = None then Some [] else makedirs a fs d)"
    by (rule Cons.IH)
  also have "\<dots> = (if d \<in> set (a # ds) \<and> fs d = None then Some [] else fs d)"
    unfolding makedirs_apply by auto
  finally show ?case .
qed

lemma make_output_dirs_fold:
  "make_output_dirs p fs = foldl (\<lambda>fs d. makedirs d fs) fs (output_dirs p)"
  by (simp add: make_output_dirs_def output_dirs_def)

lemma make_output_dirs_apply:
  "make_output_dirs p fs d
   = (if d \<in> set (output_dirs p) \<and> fs d = None then Some [] else fs d)"
  by (simp only: make_output_dirs_fold makedirs_list_apply)

lemma move_ok:
  assumes "s \<noteq> t" "fs s = Some src" "fs t = Some tgt" "f \<in> set src"
  shows "move s t f fs
         = (Inr (), fs(s \<mapsto> removeAll f src,
                       t \<mapsto> (if f \<in> set tgt then tgt else tgt @ [f])))"
  using assms by (simp add: move_def)

lemma move_missing:
  assumes "fs s = Some src" "f \<notin> set src"
  shows "move s t f fs = (Inl FileNotFoundError, fs)"
  using assms by (simp add: move_def)

lemma move_files_ok:
  assumes "s \<noteq> t" "fs s = Some src" "fs t = Some tgt" "distinct fl" "set fl \<subseteq> set src"
  shows "move_files fl s t fs
         = (Inr (), fs(s \<mapsto> filter (\<lambda>x. x \<notin> set fl) src,
                       t \<mapsto> tgt @ filter (\<lambda>x. x \<notin> set tgt) fl))"
  using assms
proof (induction fl arbitrary: fs src tgt)
  case Nil
  have e: "fs(s \<mapsto> filter (\<lambda>x. x \<notin> set []) src,
              t \<mapsto> tgt @ filter (\<lambda>x. x \<notin> set tgt) []) = fs"
    by (rule ext) (simp add: Nil.prems(2,3))
  show ?case unfolding e by simp
next
  case (Cons f fl)
  let ?tgt = "if f \<in> set tgt then tgt else tgt @ [f]"
  let ?fs = "fs(s \<mapsto> removeAll f src, t \<mapsto> ?tgt)"
  from Cons.prems have f: "f \<in> set src" "f \<notin> set fl" "distinct fl" by simp_all
  have m: "move s t f fs = (Inr (), ?fs)"
    by (rule move_ok [OF Cons.prems(1,2,3) f(1)])
  have s1: "?fs s = Some (removeAll f src)" using Cons.prems(1) by simp
  have t1: "?fs t = Some ?tgt" by simp
  have sub: "set fl \<subseteq> set (removeAll f src)" using Cons.prems(5) f(2) by auto
  have ih: "move_files fl s t ?fs
            = (Inr (), ?fs(s \<mapsto> filter (\<lambda>x. x \<notin> set fl) (removeAll f src),
                           t \<mapsto> ?tgt @ filter (\<lambda>x. x \<notin> set ?tgt) fl))"
    by (rule Cons.IH [OF Cons.prems(1) s1 t1 f(3) sub])
  have a: "filter (\<lambda>x. x \<notin> set fl) (removeAll f src)
           = filter (\<lambda>x. x \<notin> set (f # fl)) src"
    by (induction src) auto
  have b: "?tgt @ filter (\<lambda>x. x \<notin> set ?tgt) fl
           = tgt @ filter (\<lambda>x. x \<notin> set tgt) (f # fl)"
  proof (cases "f \<in> set tgt")
    case True
    then show ?thesis by simp
  next
    case False
    have "filter (\<lambda>x. x \<notin> set (tgt @ [f])) fl = filter (\<lambda>x. x \<notin> set tgt) fl"
      using f(2) by (induction fl) auto
    with False show ?thesis by simp
  qed
  have c: "?fs(s \<mapsto> A, t \<mapsto> B) = fs(s \<mapsto> A, t \<mapsto> B)" for A B
    using Cons.prems(1) by (simp add: fun_upd_twist)
  show ?case
    by (simp only: move_files.simps m prod.case sum.case ih a b c)
qed

lemma move_files_fails:
  assumes "s \<noteq> t" "fs s = Some src" "fs t = Some tgt" "\<not> (distinct fl \<and> set fl \<subseteq> set src)"
  shows "\<exists>fs' src' f. move_files fl s t fs = (Inl FileNotFoundError, fs') \<and>
           fs' s = Some src' \<and> f \<in> set fl \<and> f \<notin> set src' \<and> set src' \<subseteq> set src"
  using assms
proof (induction fl arbitrary: fs src tgt)
  case Nil
  then show ?case by simp
next
  case (Cons f fl)
  show ?case
  proof (cases "f \<in> set src")
    case False
    have "move s t f fs = (Inl FileNotFoundError, fs)"
      using Cons.prems(2) False by (simp add: move_def)
    then have "move_files (f # fl) s t fs = (Inl FileNotFoundError, fs)" by simp
    with Cons.prems(2) False show ?thesis by auto
  next
    case True
    let ?tgt = "if f \<in> set tgt then tgt else tgt @ [f]"
    let ?fs = "fs(s \<mapsto> removeAll f src, t \<mapsto> ?tgt)"
    have m: "move s t f fs = (Inr (), ?fs)"
      by (rule move_ok [OF Cons.prems(1,2,3) True])
    have s1: "?fs s = Some (removeAll f src)" using Cons.prems(1) by simp
    have t1: "?fs t = Some ?tgt" by simp
    from Cons.prems(4) True have bad: "\<not> (distinct fl \<and> set fl \<subseteq> set (removeAll f src))"
      by auto
    from Cons.IH [OF Cons.prems(1) s1 t1 bad] obtain fs' src' g where
      r: "move_files fl s t ?fs = (Inl FileNotFoundError, fs')" "fs' s = Some src'"
         "g \<in> set fl" "g \<notin> set src'" "set src' \<subseteq> set (removeAll f src)"
      by blast
    have "move_files (f # fl) s t fs = (Inl FileNotFoundError, fs')"
      by (simp only: move_files.simps m prod.case sum.case r(1))
    moreover have "set src' \<subseteq> set src" using r(5) by auto
    ultimately show ?thesis using r(2,3,4) by auto
  qed
qed

section \<open>The six moves\<close>

lemma move_all_step_ok:
  assumes "s \<noteq> t" "fs s = Some src" "fs t = Some tgt" "distinct fl" "set fl \<subseteq> set src"
  shows "move_all ((fl, s, t) # rest) fs
         = move_all rest (fs(s \<mapsto> filter (\<lambda>x. x \<notin> set fl) src,
                              t \<mapsto> tgt @ filter (\<lambda>x. x \<notin> set tgt) fl))"
  by (simp add: move_files_ok [OF assms])

lemma move_all_step_fails:
  assumes "s \<noteq> t" "fs s = Some src" "fs t = Some tgt" "\<not> (distinct fl \<and> set fl \<subseteq> set src)"
  shows "\<exists>fs' src' f. move_all ((fl, s, t) # rest) fs = (Inl FileNotFoundError, fs') \<and>
           fs' s = Some src' \<and> f \<in> set fl \<and> f \<notin> set src' \<and> set src' \<subseteq> set src"
proof -
  from move_files_fails [OF assms] obtain fs' src' f where
    r: "move_files fl s t fs = (Inl FileNotFoundError, fs')" "fs' s = Some src'"
       "f \<in> set fl" "f \<notin> set src'" "set src' \<subseteq> set src"
    by blast
  have "move_all ((fl, s, t) # rest) fs = (Inl FileNotFoundError, fs')"
    by (simp add: r(1))
  with r(2-5) show ?thesis by blast
qed

lemma filter_out_subset:
  assumes "set ys \<subseteq> set xs" "set ys \<inter> set zs = {}"
  shows "set ys \<subseteq> set (filter (\<lambda>x. x \<notin> set zs) xs)"
  using assms by auto

lemma six_moves_ok:
  assumes d: "distinct [img, lbl, ti1, tl1, ti2, tl2, ti3, tl3]"
      and fs: "fs img = Some il" "fs lbl = Some ll"
              "fs ti1 = Some a1" "fs tl1 = Some b1" "fs ti2 = Some a2" "fs tl2 = Some b2"
              "fs ti3 = Some a3" "fs tl3 = Some b3"
      and i: "distinct (I1 @ I2 @ I3)" "set (I1 @ I2 @ I3) \<subseteq> set il"
      and l: "distinct (L1 @ L2 @ L3)" "set (L1 @ L2 @ L3) \<subseteq> set ll"
  shows "move_all [(I1, img, ti1), (L1, lbl, tl1), (I2, img, ti2), (L2, lbl, tl2),
                   (I3, img, ti3), (L3, lbl, tl3)] fs
         = (Inr (),
            fs(img \<mapsto> filter (\<lambda>x. x \<notin> set I1) il,
               ti1 \<mapsto> a1 @ filter (\<lambda>x. x \<notin> set a1) I1,
               lbl \<mapsto> filter (\<lambda>x. x \<notin> set L1) ll,
               tl1 \<mapsto> b1 @ filter (\<lambda>x. x \<notin> set b1) L1,
               img \<mapsto> filter (\<lambda>x. x \<notin> set I2) (filter (\<lambda>x. x \<notin> set I1) il),
               ti2 \<mapsto> a2 @ filter (\<lambda>x. x \<notin> set a2) I2,
               lbl \<mapsto> filter (\<lambda>x. x \<notin> set L2) (filter (\<lambda>x. x \<notin> set L1) ll),
               tl2 \<mapsto> b2 @ filter (\<lambda>x. x \<notin> set b2) L2,
               img \<mapsto> filter (\<lambda>x. x \<notin> set I3)
                         (filter (\<lambda>x. x \<notin> set I2) (filter (\<lambda>x. x \<notin> set I1) il)),
               ti3 \<mapsto> a3 @ filter (\<lambda>x. x \<notin> set a3) I3,
               lbl \<mapsto> filter (\<lambda>x. x \<notin> set L3)
                         (filter (\<lambda>x. x \<notin> set L2) (filter (\<lambda>x. x \<notin> set L1) ll)),
               tl3 \<mapsto> b3 @ filter (\<lambda>x. x \<notin> set b3) L3))"
proof -
  let ?F = "\<lambda>fl xs. filter (\<lambda>x. x \<notin> set fl) xs"
  let ?A = "\<lambda>tgt fl. tgt @ filter (\<lambda>x. x \<notin> set tgt) fl"
  define fs1 where "fs1 = fs(img \<mapsto> ?F I1 il, ti1 \<mapsto> ?A a1 I1)"
  define fs2 where "fs2 = fs1(lbl \<mapsto> ?F L1 ll, tl1 \<mapsto> ?A b1 L1)"
  define fs3 where "fs3 = fs2(img \<mapsto> ?F I2 (?F I1 il), ti2 \<mapsto> ?A a2 I2)"
  define fs4 where "fs4 = fs3(lbl \<mapsto> ?F L2 (?F L1 ll), tl2 \<mapsto> ?A b2 L2)"
  define fs5 where "fs5 = fs4(img \<mapsto> ?F I3 (?F I2 (?F I1 il)), ti3 \<mapsto> ?A a3 I3)"
  define fs6 where "fs6 = fs5(lbl \<mapsto> ?F L3 (?F L2 (?F L1 ll)), tl3 \<mapsto> ?A b3 L3)"
  from i have i1: "distinct I1" "set I1 \<subseteq> set il" by simp_all
  from i have i2: "distinct I2" "set I2 \<subseteq> set (?F I1 il)" by auto
  from i have i3: "distinct I3" "set I3 \<subseteq> set (?F I2 (?F I1 il))" by auto
  from l have l1: "distinct L1" "set L1 \<subseteq> set ll" by simp_all
  from l have l2: "distinct L2" "set L2 \<subseteq> set (?F L1 ll)" by auto
  from l have l3: "distinct L3" "set L3 \<subseteq> set (?F L2 (?F L1 ll))" by auto
  from d have n1: "img \<noteq> ti1" and n2: "lbl \<noteq> tl1" and n3: "img \<noteq> ti2" and n4: "lbl \<noteq> tl2"
    and n5: "img \<noteq> ti3" and n6: "lbl \<noteq> tl3" by simp_all
  have s1: "fs1 lbl = Some ll" "fs1 tl1 = Some b1"
    using d fs by (auto simp add: fs1_def)
  have s2: "fs2 img = Some (?F I1 il)" "fs2 ti2 = Some a2"
    using d fs by (auto simp add: fs1_def fs2_def)
  have s3: "fs3 lbl = Some (?F L1 ll)" "fs3 tl2 = Some b2"
    using d fs by (auto simp add: fs1_def fs2_def fs3_def)
  have s4: "fs4 img = Some (?F I2 (?F I1 il))" "fs4 ti3 = Some a3"
    using d fs by (auto simp add: fs1_def fs2_def fs3_def fs4_def)
  have s5: "fs5 lbl = Some (?F L2 (?F L1 ll))" "fs5 tl3 = Some b3"
    using d fs by (auto simp add: fs1_def fs2_def fs3_def fs4_def fs5_def)
  have "move_all [(I1, img, ti1), (L1, lbl, tl1), (I2, img, ti2), (L2, lbl, tl2),
                  (I3, img, ti3), (L3, lbl, tl3)] fs
        = move_all [(L1, lbl, tl1), (I2, img, ti2), (L2, lbl, tl2),
                    (I3, img, ti3), (L3, lbl, tl3)] fs1"
    unfolding fs1_def by (rule move_all_step_ok [OF n1 fs(1) fs(3) i1])
  also have "\<dots> = move_all [(I2, img, ti2), (L2, lbl, tl2), (I3, img, ti3), (L3, lbl, tl3)] fs2"
    unfolding fs2_def by (rule move_all_step_ok [OF n2 s1 l1])
  also have "\<dots> = move_all [(L2, lbl, tl2), (I3, img, ti3), (L3, lbl, tl3)] fs3"
    unfolding fs3_def by (rule move_all_step_ok [OF n3 s2 i2])
  also have "\<dots> = move_all [(I3, img, ti3), (L3, lbl, tl3)] fs4"
    unfolding fs4_def by (rule move_all_step_ok [OF n4 s3 l2])
  also have "\<dots> = move_all [(L3, lbl, tl3)] fs5"
    unfolding fs5_def by (rule move_all_step_ok [OF n5 s4 i3])
  also have "\<dots> = move_all [] fs6"
    unfolding fs6_def by (rule move_all_step_ok [OF n6 s5 l3])
  also have "\<dots> = (Inr (), fs6)" by simp
  finally show ?thesis
    unfolding fs6_def fs5_def fs4_def fs3_def fs2_def fs1_def .
qed


lemma three_lists_ok:
  assumes "distinct L1" "set L1 \<subseteq> set ll"
      and "distinct L2" "set L2 \<subseteq> set (filter (\<lambda>x. x \<notin> set L1) ll)"
      and "distinct L3"
          "set L3 \<subseteq> set (filter (\<lambda>x. x \<notin> set L2) (filter (\<lambda>x. x \<notin> set L1) ll))"
  shows "distinct (L1 @ L2 @ L3) \<and> set (L1 @ L2 @ L3) \<subseteq> set ll"
  using assms by auto

lemma six_moves_fail:
  assumes d: "distinct [img, lbl, ti1, tl1, ti2, tl2, ti3, tl3]"
      and fs: "fs img = Some il" "fs lbl = Some ll"
              "fs ti1 = Some a1" "fs tl1 = Some b1" "fs ti2 = Some a2" "fs tl2 = Some b2"
              "fs ti3 = Some a3" "fs tl3 = Some b3"
      and i: "distinct (I1 @ I2 @ I3)" "set (I1 @ I2 @ I3) \<subseteq> set il"
      and l: "\<not> (distinct (L1 @ L2 @ L3) \<and> set (L1 @ L2 @ L3) \<subseteq> set ll)"
  shows "\<exists>fs' ll' f.
           move_all [(I1, img, ti1), (L1, lbl, tl1), (I2, img, ti2), (L2, lbl, tl2),
                     (I3, img, ti3), (L3, lbl, tl3)] fs = (Inl FileNotFoundError, fs') \<and>
           fs' lbl = Some ll' \<and> f \<in> set (L1 @ L2 @ L3) \<and> f \<notin> set ll' \<and>
           set ll' \<subseteq> set ll"
proof -
  let ?F = "\<lambda>fl xs. filter (\<lambda>x. x \<notin> set fl) xs"
  let ?A = "\<lambda>tgt fl. tgt @ filter (\<lambda>x. x \<notin> set tgt) fl"
  define fs1 where "fs1 = fs(img \<mapsto> ?F I1 il, ti1 \<mapsto> ?A a1 I1)"
  define fs2 where "fs2 = fs1(lbl \<mapsto> ?F L1 ll, tl1 \<mapsto> ?A b1 L1)"
  define fs3 where "fs3 = fs2(img \<mapsto> ?F I2 (?F I1 il), ti2 \<mapsto> ?A a2 I2)"
  define fs4 where "fs4 = fs3(lbl \<mapsto> ?F L2 (?F L1 ll), tl2 \<mapsto> ?A b2 L2)"
  define fs5 where "fs5 = fs4(img \<mapsto> ?F I3 (?F I2 (?F I1 il)), ti3 \<mapsto> ?A a3 I3)"
  from i have i1: "distinct I1" "set I1 \<subseteq> set il" by simp_all
  from i have i2: "distinct I2" "set I2 \<subseteq> set (?F I1 il)" by auto
  from i have i3: "distinct I3" "set I3 \<subseteq> set (?F I2 (?F I1 il))" by auto
  from d have n1: "img \<noteq> ti1" and n2: "lbl \<noteq> tl1" and n3: "img \<noteq> ti2" and n4: "lbl \<noteq> tl2"
    and n5: "img \<noteq> ti3" and n6: "lbl \<noteq> tl3" by simp_all
  have s1: "fs1 lbl = Some ll" "fs1 tl1 = Some b1"
    using d fs by (auto simp add: fs1_def)
  have s2: "fs2 img = Some (?F I1 il)" "fs2 ti2 = Some a2"
    using d fs by (auto simp add: fs1_def fs2_def)
  have s3: "fs3 lbl = Some (?F L1 ll)" "fs3 tl2 = Some b2"
    using d fs by (auto simp add: fs1_def fs2_def fs3_def)
  have s4: "fs4 img = Some (?F I2 (?F I1 il))" "fs4 ti3 = Some a3"
    using d fs by (auto simp add: fs1_def fs2_def fs3_def fs4_def)
  have s5: "fs5 lbl = Some (?F L2 (?F L1 ll))" "fs5 tl3 = Some b3"
    using d fs by (auto simp add: fs1_def fs2_def fs3_def fs4_def fs5_def)
  have c1: "move_all [(I1, img, ti1), (L1, lbl, tl1), (I2, img, ti2), (L2, lbl, tl2),
                  (I3, img, ti3), (L3, lbl, tl3)] fs
        = move_all [(L1, lbl, tl1), (I2, img, ti2), (L2, lbl, tl2),
                    (I3, img, ti3), (L3, lbl, tl3)] fs1"
    unfolding fs1_def by (rule move_all_step_ok [OF n1 fs(1) fs(3) i1])
  show ?thesis
  proof (cases "distinct L1 \<and> set L1 \<subseteq> set ll")
    case False
    from move_all_step_fails [OF n2 s1 False] c1 show ?thesis by fastforce
  next
    case ok1: True
    then have l1: "distinct L1" "set L1 \<subseteq> set ll" by simp_all
    have c3: "move_all [(L1, lbl, tl1), (I2, img, ti2), (L2, lbl, tl2),
                    (I3, img, ti3), (L3, lbl, tl3)] fs1
          = move_all [(L2, lbl, tl2), (I3, img, ti3), (L3, lbl, tl3)] fs3"
    proof -
      have "move_all [(L1, lbl, tl1), (I2, img, ti2), (L2, lbl, tl2),
                    (I3, img, ti3), (L3, lbl, tl3)] fs1
            = move_all [(I2, img, ti2), (L2, lbl, tl2), (I3, img, ti3), (L3, lbl, tl3)] fs2"
        unfolding fs2_def by (rule move_all_step_ok [OF n2 s1 l1])
      also have "\<dots> = move_all [(L2, lbl, tl2), (I3, img, ti3), (L3, lbl, tl3)] fs3"
        unfolding fs3_def by (rule move_all_step_ok [OF n3 s2 i2])
      finally show ?thesis .
    qed
    show ?thesis
    proof (cases "distinct L2 \<and> set L2 \<subseteq> set (?F L1 ll)")
      case False
      from move_all_step_fails [OF n4 s3 False] obtain fs' src' f where
        r: "move_all [(L2, lbl, tl2), (I3, img, ti3), (L3, lbl, tl3)] fs3
            = (Inl FileNotFoundError, fs')"
           "fs' lbl = Some src'" "f \<in> set L2" "f \<notin> set src'" "set src' \<subseteq> set (?F L1 ll)"
        by blast
      from r(5) have "set src' \<subseteq> set ll" by auto
      with r(1-4) c1 c3 show ?thesis by fastforce
    next
      case ok2: True
      then have l2: "distinct L2" "set L2 \<subseteq> set (?F L1 ll)" by simp_all
      have c5: "move_all [(L2, lbl, tl2), (I3, img, ti3), (L3, lbl, tl3)] fs3
                = move_all [(L3, lbl, tl3)] fs5"
      proof -
        have "move_all [(L2, lbl, tl2), (I3, img, ti3), (L3, lbl, tl3)] fs3
              = move_all [(I3, img, ti3), (L3, lbl, tl3)] fs4"
          unfolding fs4_def by (rule move_all_step_ok [OF n4 s3 l2])
        also have "\<dots> = move_all [(L3, lbl, tl3)] fs5"
          unfolding fs5_def by (rule move_all_step_ok [OF n5 s4 i3])
        finally show ?thesis .
      qed
      have bad3: "\<not> (distinct L3 \<and> set L3 \<subseteq> set (?F L2 (?F L1 ll)))"
      proof
        assume "distinct L3 \<and> set L3 \<subseteq> set (?F L2 (?F L1 ll))"
        then have "distinct (L1 @ L2 @ L3) \<and> set (L1 @ L2 @ L3) \<subseteq> set ll"
          using three_lists_ok [OF l1 l2] by blast
        with l show False by blast
      qed
      from move_all_step_fails [OF n6 s5 bad3] obtain fs' src' f where
        r: "move_all [(L3, lbl, tl3)] fs5 = (Inl FileNotFoundError, fs')"
           "fs' lbl = Some src'" "f \<in> set L3" "f \<notin> set src'"
           "set src' \<subseteq> set (?F L2 (?F L1 ll))"
        by blast
      from r(5) have "set src' \<subseteq> set ll" by auto
      with r(1-4) c1 c3 c5 show ?thesis by fastforce
    qed
  qed
qed

section \<open>What a run of split\_data does to the file system\<close>

lemma output_dirs_list:
  "output_dirs p = [path_join p [''train'', ''images''], path_join p [''train'', ''labels''],
                    path_join p [''valid'', ''images''], path_join p [''valid'', ''labels''],
                    path_join p [''test'', ''images''], path_join p [''test'', ''labels'']]"
  by (simp add: output_dirs_def)

lemma eight_dirs_distinct:
  assumes "image_dir \<noteq> label_dir" "image_dir \<notin> set (output_dirs p)"
          "label_dir \<notin> set (output_dirs p)"
  shows "distinct [image_dir, label_dir,
           path_join p [''train'', ''images''], path_join p [''train'', ''labels''],
           path_join p [''valid'', ''images''], path_join p [''valid'', ''labels''],
           path_join p [''test'', ''images''], path_join p [''test'', ''labels'']]"
proof -
  have "distinct (image_dir # label_dir # output_dirs p)"
    using assms distinct_output_dirs [of p] by simp
  then show ?thesis by (simp only: output_dirs_list)
qed

lemma made_dir:
  assumes "d \<in> set (output_dirs p)"
  shows "make_output_dirs p fs d = Some (listing fs d)"
  using assms by (simp add: make_output_dirs_apply listing_def split: option.splits)

lemma kept_dir:
  assumes "d \<notin> set (output_dirs p)"
  shows "make_output_dirs p fs d = fs d"
  using assms by (simp add: make_output_dirs_apply)

lemma partition_assignment_after_makedirs:
  assumes "image_dir \<notin> set (output_dirs p)" "label_dir \<notin> set (output_dirs p)"
  shows "partition_assignment perm image_dir label_dir v t (make_output_dirs p fs)
         = partition_assignment perm image_dir label_dir v t fs"
proof -
  have i: "listdir image_dir (make_output_dirs p fs) = listdir image_dir fs"
    by (simp add: listdir_def kept_dir [OF assms(1)])
  have l: "listdir label_dir (make_output_dirs p fs) = listdir label_dir fs"
    by (simp add: listdir_def kept_dir [OF assms(2)])
  show ?thesis unfolding partition_assignment_def i l ..
qed

lemma assignment_files:
  assumes perm: "\<forall>n. mset (perm n) = mset [0..<n]"
      and img: "fs image_dir = Some image_listing"
      and lbl: "fs label_dir = Some label_listing"
      and res: "partition_assignment perm image_dir label_dir val_ratio test_ratio fs
                = Inr (tri, trl, vi, vl, tei, tel)"
  shows "mset (tri @ vi @ tei)
           = mset (map fst (matched_files (sort image_listing) (sort label_listing)))"
    and "mset (trl @ vl @ tel)
           = mset (map snd (matched_files (sort image_listing) (sort label_listing)))"
proof -
  let ?M = "matched_files (sort image_listing) (sort label_listing)"
  from res have "split_filenames perm (map fst ?M) (map snd ?M) val_ratio test_ratio
                 = Inr (tri, trl, vi, vl, tei, tel)"
    by (simp only: partition_assignment_split [OF img lbl])
  from split_filenames_pairs [OF this perm] obtain mtr mv mte where
    e: "tri = map fst mtr" "trl = map snd mtr" "vi = map fst mv" "vl = map snd mv"
       "tei = map fst mte" "tel = map snd mte"
    and p: "mset mtr + mset mv + mset mte = mset ?M"
    by blast
  have "mset (tri @ vi @ tei) = image_mset fst (mset mtr + mset mv + mset mte)"
    unfolding e by simp
  then show "mset (tri @ vi @ tei) = mset (map fst ?M)" unfolding p by simp
  have "mset (trl @ vl @ tel) = image_mset snd (mset mtr + mset mv + mset mte)"
    unfolding e by simp
  then show "mset (trl @ vl @ tel) = mset (map snd ?M)" unfolding p by simp
qed

lemma map_fst_matched_files:
  "map fst (matched_files is ls)
   = filter (\<lambda>f. fst (splitext f) \<in> (\<lambda>l. fst (splitext l)) ` set ls) is"
  unfolding matched_files_eq by (simp add: comp_def)

lemma assignment_images_ok:
  assumes perm: "\<forall>n. mset (perm n) = mset [0..<n]"
      and img: "fs image_dir = Some image_listing"
      and lbl: "fs label_dir = Some label_listing"
      and dist: "distinct image_listing"
      and res: "partition_assignment perm image_dir label_dir val_ratio test_ratio fs
                = Inr (tri, trl, vi, vl, tei, tel)"
  shows "distinct (tri @ vi @ tei)" and "set (tri @ vi @ tei) \<subseteq> set image_listing"
proof -
  let ?M = "matched_files (sort image_listing) (sort label_listing)"
  note m = assignment_files(1) [OF perm img lbl res]
  have "distinct (map fst ?M)" unfolding map_fst_matched_files using dist by simp
  then show "distinct (tri @ vi @ tei)" using mset_eq_imp_distinct_iff [OF m] by simp
  have "set (tri @ vi @ tei) = set (map fst ?M)" by (rule mset_eq_setD [OF m])
  also have "\<dots> \<subseteq> set image_listing" unfolding map_fst_matched_files by auto
  finally show "set (tri @ vi @ tei) \<subseteq> set image_listing" .
qed

lemma filter_thrice:
  "filter (\<lambda>x. x \<notin> set C) (filter (\<lambda>x. x \<notin> set B) (filter (\<lambda>x. x \<notin> set A) xs))
   = filter (\<lambda>x. x \<notin> set (A @ B @ C)) xs"
  by (induction xs) auto

lemma in_output_dirs:
  "path_join p [''train'', ''images''] \<in> set (output_dirs p)"
  "path_join p [''train'', ''labels''] \<in> set (output_dirs p)"
  "path_join p [''valid'', ''images''] \<in> set (output_dirs p)"
  "path_join p [''valid'', ''labels''] \<in> set (output_dirs p)"
  "path_join p [''test'', ''images''] \<in> set (output_dirs p)"
  "path_join p [''test'', ''labels''] \<in> set (output_dirs p)"
  by (simp_all add: output_dirs_list)

lemma split_data_unfold:
  assumes "fadd (fadd train_ratio val_ratio) test_ratio = 1"
      and "image_dir \<notin> set (output_dirs p)" "label_dir \<notin> set (output_dirs p)"
      and "partition_assignment perm image_dir label_dir val_ratio test_ratio fs
           = Inr (tri, trl, vi, vl, tei, tel)"
      and "move_all
            [(tri, image_dir, path_join p [''train'', ''images'']),
             (trl, label_dir, path_join p [''train'', ''labels'']),
             (vi, image_dir, path_join p [''valid'', ''images'']),
             (vl, label_dir, path_join p [''valid'', ''labels'']),
             (tei, image_dir, path_join p [''test'', ''images'']),
             (tel, label_dir, path_join p [''test'', ''labels''])]
            (make_output_dirs p fs) = (r, fs')"
  shows "split_data perm image_dir label_dir p train_ratio val_ratio test_ratio fs
         = (case r of Inl e \<Rightarrow> Inl e | Inr _ \<Rightarrow> Inr (length tri, length vi, length tei), fs')"
proof -
  have pa: "partition_assignment perm image_dir label_dir val_ratio test_ratio
              (make_output_dirs p fs) = Inr (tri, trl, vi, vl, tei, tel)"
    by (simp only: partition_assignment_after_makedirs [OF assms(2,3)] assms(4))
  have rel: "relocate image_dir label_dir p (tri, trl, vi, vl, tei, tel) (make_output_dirs p fs)
             = (r, fs')"
    by (simp only: relocate_def prod.case assms(5))
  show ?thesis
    by (cases r) (simp_all add: split_data_def assms(1) Let_def pa rel)
qed


lemma split_data_ok:
  assumes perm: "\<forall>n. mset (perm n) = mset [0..<n]"
      and n1: "image_dir \<noteq> label_dir"
      and n2: "image_dir \<notin> set (output_dirs p)"
      and n3: "label_dir \<notin> set (output_dirs p)"
      and img: "fs image_dir = Some image_listing"
      and lbl: "fs label_dir = Some label_listing"
      and dist: "distinct image_listing"
      and ratio: "fadd (fadd train_ratio val_ratio) test_ratio = 1"
      and res: "partition_assignment perm image_dir label_dir val_ratio test_ratio fs
                = Inr (tri, trl, vi, vl, tei, tel)"
      and lab: "distinct (trl @ vl @ tel)" "set (trl @ vl @ tel) \<subseteq> set label_listing"
  shows "\<exists>fs'.
     split_data perm image_dir label_dir p train_ratio val_ratio test_ratio fs
       = (Inr (length tri, length vi, length tei), fs') \<and>
     fs' image_dir = Some (filter (\<lambda>x. x \<notin> set (tri @ vi @ tei)) image_listing) \<and>
     fs' label_dir = Some (filter (\<lambda>x. x \<notin> set (trl @ vl @ tel)) label_listing) \<and>
     fs' (path_join p [''train'', ''images''])
       = Some (listing fs (path_join p [''train'', ''images''])
               @ filter (\<lambda>x. x \<notin> set (listing fs (path_join p [''train'', ''images'']))) tri) \<and>
     fs' (path_join p [''train'', ''labels''])
       = Some (listing fs (path_join p [''train'', ''labels''])
               @ filter (\<lambda>x. x \<notin> set (listing fs (path_join p [''train'', ''labels'']))) trl) \<and>
     fs' (path_join p [''valid'', ''images''])
       = Some (listing fs (path_join p [''valid'', ''images''])
               @ filter (\<lambda>x. x \<notin> set (listing fs (path_join p [''valid'', ''images'']))) vi) \<and>
     fs' (path_join p [''valid'', ''labels''])
       = Some (listing fs (path_join p [''valid'', ''labels''])
               @ filter (\<lambda>x. x \<notin> set (listing fs (path_join p [''valid'', ''labels'']))) vl) \<and>
     fs' (path_join p [''test'', ''images''])
       = Some (listing fs (path_join p [''test'', ''images''])
               @ filter (\<lambda>x. x \<notin> set (listing fs (path_join p [''test'', ''images'']))) tei) \<and>
     fs' (path_join p [''test'', ''labels''])
       = Some (listing fs (path_join p [''test'', ''labels''])
               @ filter (\<lambda>x. x \<notin> set (listing fs (path_join p [''test'', ''labels'']))) tel) \<and>
     (\<forall>d. d \<noteq> image_dir \<longrightarrow> d \<noteq> label_dir \<longrightarrow> d \<notin> set (output_dirs p) \<longrightarrow> fs' d = fs d)"
proof -
  let ?ti1 = "path_join p [''train'', ''images'']" and ?tl1 = "path_join p [''train'', ''labels'']"
  let ?ti2 = "path_join p [''valid'', ''images'']" and ?tl2 = "path_join p [''valid'', ''labels'']"
  let ?ti3 = "path_join p [''test'', ''images'']" and ?tl3 = "path_join p [''test'', ''labels'']"
  let ?fs1 = "make_output_dirs p fs"
  let ?F = "\<lambda>fl xs. filter (\<lambda>x. x \<notin> set fl) xs"
  let ?A = "\<lambda>d fl. listing fs d @ filter (\<lambda>x. x \<notin> set (listing fs d)) fl"
  note d8 = eight_dirs_distinct [OF n1 n2 n3]
  have k: "?fs1 image_dir = Some image_listing" "?fs1 label_dir = Some label_listing"
    by (simp_all add: kept_dir [OF n2] kept_dir [OF n3] img lbl)
  note m = made_dir [where p = p and fs = fs, OF in_output_dirs(1)]
    made_dir [where p = p and fs = fs, OF in_output_dirs(2)]
    made_dir [where p = p and fs = fs, OF in_output_dirs(3)]
    made_dir [where p = p and fs = fs, OF in_output_dirs(4)]
    made_dir [where p = p and fs = fs, OF in_output_dirs(5)]
    made_dir [where p = p and fs = fs, OF in_output_dirs(6)]
  note io = assignment_images_ok [OF perm img lbl dist res]
  define fs' where "fs' = ?fs1(image_dir \<mapsto> ?F tri image_listing,
               ?ti1 \<mapsto> ?A ?ti1 tri,
               label_dir \<mapsto> ?F trl label_listing,
               ?tl1 \<mapsto> ?A ?tl1 trl,
               image_dir \<mapsto> ?F vi (?F tri image_listing),
               ?ti2 \<mapsto> ?A ?ti2 vi,
               label_dir \<mapsto> ?F vl (?F trl label_listing),
               ?tl2 \<mapsto> ?A ?tl2 vl,
               image_dir \<mapsto> ?F tei (?F vi (?F tri image_listing)),
               ?ti3 \<mapsto> ?A ?ti3 tei,
               label_dir \<mapsto> ?F tel (?F vl (?F trl label_listing)),
               ?tl3 \<mapsto> ?A ?tl3 tel)"
  have mv: "move_all [(tri, image_dir, ?ti1), (trl, label_dir, ?tl1), (vi, image_dir, ?ti2),
                      (vl, label_dir, ?tl2), (tei, image_dir, ?ti3), (tel, label_dir, ?tl3)] ?fs1
            = (Inr (), fs')"
    unfolding fs'_def by (rule six_moves_ok [OF d8 k m io lab])
  have sd: "split_data perm image_dir label_dir p train_ratio val_ratio test_ratio fs
            = (Inr (length tri, length vi, length tei), fs')"
    using split_data_unfold [OF ratio n2 n3 res mv] by simp
  have a: "fs' image_dir = Some (?F (tri @ vi @ tei) image_listing)"
    using d8 by (auto simp add: fs'_def filter_thrice)
  have b: "fs' label_dir = Some (?F (trl @ vl @ tel) label_listing)"
    using d8 by (auto simp add: fs'_def filter_thrice)
  have c: "fs' ?ti1 = Some (?A ?ti1 tri)" "fs' ?tl1 = Some (?A ?tl1 trl)"
    "fs' ?ti2 = Some (?A ?ti2 vi)" "fs' ?tl2 = Some (?A ?tl2 vl)"
    "fs' ?ti3 = Some (?A ?ti3 tei)" "fs' ?tl3 = Some (?A ?tl3 tel)"
    using d8 by (auto simp add: fs'_def)
  have e: "\<forall>d. d \<noteq> image_dir \<longrightarrow> d \<noteq> label_dir \<longrightarrow> d \<notin> set (output_dirs p) \<longrightarrow> fs' d = fs d"
    by (auto simp add: fs'_def output_dirs_list kept_dir)
  from sd a b c e show ?thesis by blast
qed


lemma split_data_fail:
  assumes perm: "\<forall>n. mset (perm n) = mset [0..<n]"
      and n1: "image_dir \<noteq> label_dir"
      and n2: "image_dir \<notin> set (output_dirs p)"
      and n3: "label_dir \<notin> set (output_dirs p)"
      and img: "fs image_dir = Some image_listing"
      and lbl: "fs label_dir = Some label_listing"
      and dist: "distinct image_listing"
      and ratio: "fadd (fadd train_ratio val_ratio) test_ratio = 1"
      and res: "partition_assignment perm image_dir label_dir val_ratio test_ratio fs
                = Inr (tri, trl, vi, vl, tei, tel)"
      and lab: "\<not> (distinct (trl @ vl @ tel) \<and> set (trl @ vl @ tel) \<subseteq> set label_listing)"
  shows "\<exists>fs' remaining f.
     split_data perm image_dir label_dir p train_ratio val_ratio test_ratio fs
       = (Inl FileNotFoundError, fs') \<and>
     fs' label_dir = Some remaining \<and> f \<in> set (trl @ vl @ tel) \<and> f \<notin> set remaining \<and>
     set remaining \<subseteq> set label_listing"
proof -
  let ?ti1 = "path_join p [''train'', ''images'']" and ?tl1 = "path_join p [''train'', ''labels'']"
  let ?ti2 = "path_join p [''valid'', ''images'']" and ?tl2 = "path_join p [''valid'', ''labels'']"
  let ?ti3 = "path_join p [''test'', ''images'']" and ?tl3 = "path_join p [''test'', ''labels'']"
  let ?fs1 = "make_output_dirs p fs"
  note d8 = eight_dirs_distinct [OF n1 n2 n3]
  have k: "?fs1 image_dir = Some image_listing" "?fs1 label_dir = Some label_listing"
    by (simp_all add: kept_dir [OF n2] kept_dir [OF n3] img lbl)
  note m = made_dir [where p = p and fs = fs, OF in_output_dirs(1)]
    made_dir [where p = p and fs = fs, OF in_output_dirs(2)]
    made_dir [where p = p and fs = fs, OF in_output_dirs(3)]
    made_dir [where p = p and fs = fs, OF in_output_dirs(4)]
    made_dir [where p = p and fs = fs, OF in_output_dirs(5)]
    made_dir [where p = p and fs = fs, OF in_output_dirs(6)]
  note io = assignment_images_ok [OF perm img lbl dist res]
  from six_moves_fail [OF d8 k m io lab] obtain fs' remaining f where
    mv: "move_all [(tri, image_dir, ?ti1), (trl, label_dir, ?tl1), (vi, image_dir, ?ti2),
                   (vl, label_dir, ?tl2), (tei, image_dir, ?ti3), (tel, label_dir, ?tl3)] ?fs1
         = (Inl FileNotFoundError, fs')"
    and r: "fs' label_dir = Some remaining" "f \<in> set (trl @ vl @ tel)" "f \<notin> set remaining"
       "set remaining \<subseteq> set label_listing"
    by blast
  have "split_data perm image_dir label_dir p train_ratio val_ratio test_ratio fs
        = (Inl FileNotFoundError, fs')"
    using split_data_unfold [OF ratio n2 n3 res mv] by simp
  with r show ?thesis by blast
qed

lemma split_data_returns:
  assumes "split_data perm image_dir label_dir p train_ratio val_ratio test_ratio fs
           = (Inr counts, fs')"
  shows "fadd (fadd train_ratio val_ratio) test_ratio = 1"
    and "\<exists>a. partition_assignment perm image_dir label_dir val_ratio test_ratio
               (make_output_dirs p fs) = Inr a"
proof -
  show r: "fadd (fadd train_ratio val_ratio) test_ratio = 1"
  proof (rule ccontr)
    assume "fadd (fadd train_ratio val_ratio) test_ratio \<noteq> 1"
    then have "split_data perm image_dir label_dir p train_ratio val_ratio test_ratio fs
               = (Inl AssertionError, fs)"
      by (simp add: split_data_def)
    with assms show False by simp
  qed
  show "\<exists>a. partition_assignment perm image_dir label_dir val_ratio test_ratio
               (make_output_dirs p fs) = Inr a"
  proof (cases "partition_assignment perm image_dir label_dir val_ratio test_ratio
               (make_output_dirs p fs)")
    case (Inl e)
    then have "split_data perm image_dir label_dir p train_ratio val_ratio test_ratio fs
               = (Inl e, make_output_dirs p fs)"
      by (simp add: split_data_def r Let_def)
    with assms show ?thesis by simp
  next
    case (Inr a)
    then show ?thesis by blast
  qed
qed

lemma bucket_labels:
  assumes perm: "\<forall>n. mset (perm n) = mset [0..<n]"
      and img: "fs image_dir = Some image_listing"
      and lbl: "fs label_dir = Some label_listing"
      and res: "partition_assignment perm image_dir label_dir val_ratio test_ratio fs
                = Inr (tri, trl, vi, vl, tei, tel)"
  shows "\<forall>i \<in> set tri. fst (splitext i) @ ''.txt'' \<in> set trl"
    and "\<forall>i \<in> set vi. fst (splitext i) @ ''.txt'' \<in> set vl"
    and "\<forall>i \<in> set tei. fst (splitext i) @ ''.txt'' \<in> set tel"
proof -
  let ?M = "matched_files (sort image_listing) (sort label_listing)"
  from res have "split_filenames perm (map fst ?M) (map snd ?M) val_ratio test_ratio
                 = Inr (tri, trl, vi, vl, tei, tel)"
    by (simp only: partition_assignment_split [OF img lbl])
  from split_filenames_pairs [OF this perm] obtain mtr mv mte where
    e: "tri = map fst mtr" "trl = map snd mtr" "vi = map fst mv" "vl = map snd mv"
       "tei = map fst mte" "tel = map snd mte"
    and p: "mset mtr + mset mv + mset mte = mset ?M"
    by blast
  from p have "mset (mtr @ mv @ mte) = mset ?M" by (simp add: add.assoc)
  then have "set (mtr @ mv @ mte) = set ?M" by (rule mset_eq_setD)
  then have sub: "set mtr \<subseteq> set ?M" "set mv \<subseteq> set ?M" "set mte \<subseteq> set ?M" by auto
  have k: "\<forall>i \<in> set (map fst m). fst (splitext i) @ ''.txt'' \<in> set (map snd m)"
    if "set m \<subseteq> set ?M" for m
  proof
    fix i assume "i \<in> set (map fst m)"
    then obtain l where il: "(i, l) \<in> set m" by auto
    with that have "(i, l) \<in> set ?M" by blast
    then have "l = fst (splitext i) @ ''.txt''" by (simp add: in_matched_files)
    with il show "fst (splitext i) @ ''.txt'' \<in> set (map snd m)" by force
  qed
  show "\<forall>i \<in> set tri. fst (splitext i) @ ''.txt'' \<in> set trl"
    unfolding e by (rule k [OF sub(1)])
  show "\<forall>i \<in> set vi. fst (splitext i) @ ''.txt'' \<in> set vl"
    unfolding e by (rule k [OF sub(2)])
  show "\<forall>i \<in> set tei. fst (splitext i) @ ''.txt'' \<in> set tel"
    unfolding e by (rule k [OF sub(3)])
qed

lemma split_data_done:
  assumes perm: "\<forall>n. mset (perm n) = mset [0..<n]"
      and n1: "image_dir \<noteq> label_dir"
      and n2: "image_dir \<notin> set (output_dirs p)"
      and n3: "label_dir \<notin> set (output_dirs p)"
      and img: "fs image_dir = Some image_listing"
      and lbl: "fs label_dir = Some label_listing"
      and dist: "distinct image_listing"
      and res: "partition_assignment perm image_dir label_dir val_ratio test_ratio fs
                = Inr (tri, trl, vi, vl, tei, tel)"
      and fin: "split_data perm image_dir label_dir p train_ratio val_ratio test_ratio fs
                 = (Inr counts, fs')"
  shows "fadd (fadd train_ratio val_ratio) test_ratio = 1"
    and "distinct (trl @ vl @ tel)" and "set (trl @ vl @ tel) \<subseteq> set label_listing"
proof -
  show r: "fadd (fadd train_ratio val_ratio) test_ratio = 1"
    by (rule split_data_returns(1) [OF fin])
  have "distinct (trl @ vl @ tel) \<and> set (trl @ vl @ tel) \<subseteq> set label_listing"
  proof (rule ccontr)
    assume "\<not> (distinct (trl @ vl @ tel) \<and> set (trl @ vl @ tel) \<subseteq> set label_listing)"
    from split_data_fail [OF perm n1 n2 n3 img lbl dist r res this] fin
    show False by auto
  qed
  then show "distinct (trl @ vl @ tel)" and "set (trl @ vl @ tel) \<subseteq> set label_listing"
    by simp_all
qed


lemma in_target:
  "x \<in> set fl \<Longrightarrow> x \<in> set (old @ filter (\<lambda>x. x \<notin> set old) fl)"
  by auto

lemma set_target:
  "set (old @ filter (\<lambda>x. x \<notin> set old) fl) = set old \<union> set fl"
  by auto

lemma listing_Some: "fs d = Some names \<Longrightarrow> listing fs d = names"
  by (simp add: listing_def)

lemma split_data_final_state:
  assumes perm: "\<forall>n. mset (perm n) = mset [0..<n]"
      and n1: "image_dir \<noteq> label_dir"
      and n2: "image_dir \<notin> set (output_dirs p)"
      and n3: "label_dir \<notin> set (output_dirs p)"
      and img: "fs image_dir = Some image_listing"
      and lbl: "fs label_dir = Some label_listing"
      and dist: "distinct image_listing"
      and res: "partition_assignment perm image_dir label_dir val_ratio test_ratio fs
                = Inr (tri, trl, vi, vl, tei, tel)"
      and fin: "split_data perm image_dir label_dir p train_ratio val_ratio test_ratio fs
                = (Inr counts, fs')"
  shows "fs' image_dir = Some (filter (\<lambda>x. x \<notin> set (tri @ vi @ tei)) image_listing)"
    and "fs' label_dir = Some (filter (\<lambda>x. x \<notin> set (trl @ vl @ tel)) label_listing)"
    and "set (listing fs' (path_join p [''train'', ''images''])) = set (listing fs (path_join p [''train'', ''images''])) \<union> set tri"
    and "set (listing fs' (path_join p [''train'', ''labels''])) = set (listing fs (path_join p [''train'', ''labels''])) \<union> set trl"
    and "set (listing fs' (path_join p [''valid'', ''images''])) = set (listing fs (path_join p [''valid'', ''images''])) \<union> set vi"
    and "set (listing fs' (path_join p [''valid'', ''labels''])) = set (listing fs (path_join p [''valid'', ''labels''])) \<union> set vl"
    and "set (listing fs' (path_join p [''test'', ''images''])) = set (listing fs (path_join p [''test'', ''images''])) \<union> set tei"
    and "set (listing fs' (path_join p [''test'', ''labels''])) = set (listing fs (path_join p [''test'', ''labels''])) \<union> set tel"
    and "\<forall>d. d \<noteq> image_dir \<longrightarrow> d \<noteq> label_dir \<longrightarrow> d \<notin> set (output_dirs p) \<longrightarrow> fs' d = fs d"
    and "counts = (length tri, length vi, length tei)"
proof -
  note sd = split_data_done [OF perm n1 n2 n3 img lbl dist res fin]
  from split_data_ok [OF perm n1 n2 n3 img lbl dist sd(1) res sd(2,3)] obtain fs2 where
    r: "split_data perm image_dir label_dir p train_ratio val_ratio test_ratio fs
        = (Inr (length tri, length vi, length tei), fs2)"
    and a: "fs2 image_dir = Some (filter (\<lambda>x. x \<notin> set (tri @ vi @ tei)) image_listing)"
    and b: "fs2 label_dir = Some (filter (\<lambda>x. x \<notin> set (trl @ vl @ tel)) label_listing)"
    and c: "fs2 (path_join p [''train'', ''images'']) = Some (listing fs (path_join p [''train'', ''images'']) @ filter (\<lambda>x. x \<notin> set (listing fs (path_join p [''train'', ''images'']))) tri)"
           "fs2 (path_join p [''train'', ''labels'']) = Some (listing fs (path_join p [''train'', ''labels'']) @ filter (\<lambda>x. x \<notin> set (listing fs (path_join p [''train'', ''labels'']))) trl)"
           "fs2 (path_join p [''valid'', ''images'']) = Some (listing fs (path_join p [''valid'', ''images'']) @ filter (\<lambda>x. x \<notin> set (listing fs (path_join p [''valid'', ''images'']))) vi)"
           "fs2 (path_join p [''valid'', ''labels'']) = Some (listing fs (path_join p [''valid'', ''labels'']) @ filter (\<lambda>x. x \<notin> set (listing fs (path_join p [''valid'', ''labels'']))) vl)"
           "fs2 (path_join p [''test'', ''images'']) = Some (listing fs (path_join p [''test'', ''images'']) @ filter (\<lambda>x. x \<notin> set (listing fs (path_join p [''test'', ''images'']))) tei)"
           "fs2 (path_join p [''test'', ''labels'']) = Some (listing fs (path_join p [''test'', ''labels'']) @ filter (\<lambda>x. x \<notin> set (listing fs (path_join p [''test'', ''labels'']))) tel)"
    and e: "\<forall>d. d \<noteq> image_dir \<longrightarrow> d \<noteq> label_dir \<longrightarrow> d \<notin> set (output_dirs p) \<longrightarrow> fs2 d = fs d"
    by blast
  from r fin have eq: "fs2 = fs'" and cnt: "counts = (length tri, length vi, length tei)"
    by simp_all
  show "fs' image_dir = Some (filter (\<lambda>x. x \<notin> set (tri @ vi @ tei)) image_listing)"
    using a unfolding eq .
  show "fs' label_dir = Some (filter (\<lambda>x. x \<notin> set (trl @ vl @ tel)) label_listing)"
    using b unfolding eq .
  show "set (listing fs' (path_join p [''train'', ''images''])) = set (listing fs (path_join p [''train'', ''images''])) \<union> set tri"
    unfolding listing_Some [where fs = fs', OF c(1) [unfolded eq]] by (rule set_target)
  show "set (listing fs' (path_join p [''train'', ''labels''])) = set (listing fs (path_join p [''train'', ''labels''])) \<union> set trl"
    unfolding listing_Some [where fs = fs', OF c(2) [unfolded eq]] by (rule set_target)
  show "set (listing fs' (path_join p [''valid'', ''images''])) = set (listing fs (path_join p [''valid'', ''images''])) \<union> set vi"
    unfolding listing_Some [where fs = fs', OF c(3) [unfolded eq]] by (rule set_target)
  show "set (listing fs' (path_join p [''valid'', ''labels''])) = set (listing fs (path_join p [''valid'', ''labels''])) \<union> set vl"
    unfolding listing_Some [where fs = fs', OF c(4) [unfolded eq]] by (rule set_target)
  show "set (listing fs' (path_join p [''test'', ''images''])) = set (listing fs (path_join p [''test'', ''images''])) \<union> set tei"
    unfolding listing_Some [where fs = fs', OF c(5) [unfolded eq]] by (rule set_target)
  show "set (listing fs' (path_join p [''test'', ''labels''])) = set (listing fs (path_join p [''test'', ''labels''])) \<union> set tel"
    unfolding listing_Some [where fs = fs', OF c(6) [unfolded eq]] by (rule set_target)
  show "\<forall>d. d \<noteq> image_dir \<longrightarrow> d \<noteq> label_dir \<longrightarrow> d \<notin> set (output_dirs p) \<longrightarrow> fs' d = fs d"
    using e unfolding eq .
  show "counts = (length tri, length vi, length tei)" by (rule cnt)
qed

section \<open>Where the files are after the run\<close>



text \<open>
  C10. When two different images of the pool share a base name that is also the base name
  of a label, the matched list pairs both with the same label name, so the label names of
  the matched list, and of the three buckets together, are not distinct. A run whose
  ratios pass the check and whose two splits return then fails with
  \<^verbatim>\<open>FileNotFoundError\<close> during the moves: a label name of the buckets is missing from what
  is left of the label pool when its move is attempted (and it was in the pool before the
  run when every label name of the buckets was). In the witness the two copies of
  \<^verbatim>\<open>a.txt\<close> are in the train and the test bucket.
\<close>

theorem duplicate_base_name_fails:
  assumes perm: "\<forall>n. mset (perm n) = mset [0..<n]"
      and n1: "image_dir \<noteq> label_dir"
      and n2: "image_dir \<notin> set (output_dirs p)"
      and n3: "label_dir \<notin> set (output_dirs p)"
      and img: "fs image_dir = Some image_listing"
      and lbl: "fs label_dir = Some label_listing"
      and dist: "distinct image_listing"
      and res: "partition_assignment perm image_dir label_dir val_ratio test_ratio fs
                = Inr (tri, trl, vi, vl, tei, tel)"
      and ratio: "fadd (fadd train_ratio val_ratio) test_ratio = 1"
      and dup: "i1 \<in> set image_listing" "i2 \<in> set image_listing" "i1 \<noteq> i2"
               "fst (splitext i1) = fst (splitext i2)"
               "fst (splitext i1) \<in> (\<lambda>l. fst (splitext l)) ` set label_listing"
  shows "(i1, fst (splitext i1) @ ''.txt'')
           \<in> set (matched_files (sort image_listing) (sort label_listing)) \<and>
         (i2, fst (splitext i1) @ ''.txt'')
           \<in> set (matched_files (sort image_listing) (sort label_listing)) \<and>
         \<not> distinct (map snd (matched_files (sort image_listing) (sort label_listing))) \<and>
         \<not> distinct (trl @ vl @ tel) \<and>
         (\<exists>fs' remaining f.
            split_data perm image_dir label_dir p train_ratio val_ratio test_ratio fs
              = (Inl FileNotFoundError, fs') \<and>
            fs' label_dir = Some remaining \<and> f \<in> set (trl @ vl @ tel) \<and>
            f \<notin> set remaining \<and> set remaining \<subseteq> set label_listing \<and>
            (set (trl @ vl @ tel) \<subseteq> set label_listing \<longrightarrow> f \<in> set label_listing))"
proof -
  let ?M = "matched_files (sort image_listing) (sort label_listing)"
  let ?l = "fst (splitext i1) @ ''.txt''"
  have m1: "(i1, ?l) \<in> set ?M" using dup(1,5) by (simp add: in_matched_files)
  have m2: "(i2, ?l) \<in> set ?M" using dup(2,4,5) by (simp add: in_matched_files)
  have nd: "\<not> distinct (map snd ?M)"
  proof
    assume "distinct (map snd ?M)"
    then have "inj_on snd (set ?M)" by (simp add: distinct_map)
    from inj_onD [OF this _ m1 m2] have "(i1, ?l) = (i2, ?l)" by simp
    with dup(3) show False by simp
  qed
  note af = assignment_files [OF perm img lbl res]
  have nl: "\<not> distinct (trl @ vl @ tel)"
    using nd mset_eq_imp_distinct_iff [OF af(2)] by simp
  then have bad: "\<not> (distinct (trl @ vl @ tel) \<and> set (trl @ vl @ tel) \<subseteq> set label_listing)"
    by blast
  from split_data_fail [OF perm n1 n2 n3 img lbl dist ratio res bad] obtain fs' remaining f where
    r: "split_data perm image_dir label_dir p train_ratio val_ratio test_ratio fs
          = (Inl FileNotFoundError, fs')"
       "fs' label_dir = Some remaining" "f \<in> set (trl @ vl @ tel)"
       "f \<notin> set remaining" "set remaining \<subseteq> set label_listing"
    by blast
  have "set (trl @ vl @ tel) \<subseteq> set label_listing \<longrightarrow> f \<in> set label_listing"
    using r(3) by blast
  with r have "\<exists>fs' remaining f.
            split_data perm image_dir label_dir p train_ratio val_ratio test_ratio fs
              = (Inl FileNotFoundError, fs') \<and>
            fs' label_dir = Some remaining \<and> f \<in> set (trl @ vl @ tel) \<and>
            f \<notin> set remaining \<and> set remaining \<subseteq> set label_listing \<and>
            (set (trl @ vl @ tel) \<subseteq> set label_listing \<longrightarrow> f \<in> set label_listing)"
    by blast
  with m1 m2 nd nl show ?thesis by blast
qed

lemma pool_dirs:
  "''data/all_images'' \<noteq> ''data/all_labels''"
  "''data/all_images'' \<notin> set (output_dirs ''data/resplit'')"
  "''data/all_labels'' \<notin> set (output_dirs ''data/resplit'')"
  by (simp_all add: output_dirs_eq out_prefix_def)









lemma dup_fs_images: "dup_fs ''data/all_images'' = Some [''a.jpg'', ''b.jpg'', ''a.png'']"
  by (simp add: dup_fs_def)

lemma dup_fs_labels: "dup_fs ''data/all_labels'' = Some [''a.txt'', ''b.txt'']"
  by (simp add: dup_fs_def)

lemma dup_fs_assignment:
  "partition_assignment seeded ''data/all_images'' ''data/all_labels''
     (to_float (2 / 10)) (to_float (2 / 10)) dup_fs
   = Inr ([''a.jpg''], [''a.txt''], [''b.jpg''], [''b.txt''], [''a.png''], [''a.txt''])"
  by code_simp

lemma dup_names:
  "''a.jpg'' \<in> set [''a.jpg'', ''b.jpg'', ''a.png'']"
  "''a.png'' \<in> set [''a.jpg'', ''b.jpg'', ''a.png'']"
  "''a.jpg'' \<noteq> ''a.png''"
  "fst (splitext ''a.jpg'') = fst (splitext ''a.png'')"
  "fst (splitext ''a.jpg'') \<in> (\<lambda>l. fst (splitext l)) ` set [''a.txt'', ''b.txt'']"
  by code_simp+

lemma dup_images_distinct: "distinct [''a.jpg'', ''b.jpg'', ''a.png'']"
  by simp

theorem duplicate_base_name_fails_witness:
  "partition_assignment seeded ''data/all_images'' ''data/all_labels''
     (to_float (2 / 10)) (to_float (2 / 10)) dup_fs
   = Inr ([''a.jpg''], [''a.txt''], [''b.jpg''], [''b.txt''], [''a.png''], [''a.txt'']) \<and>
   \<not> distinct ([''a.txt''] @ [''b.txt''] @ [''a.txt'']) \<and>
   fst dup_run = Inl FileNotFoundError"
proof -
  note t = duplicate_base_name_fails
             [OF seeded_permutes pool_dirs dup_fs_images dup_fs_labels dup_images_distinct
                 dup_fs_assignment float_06_02_02 dup_names]
  from t have "\<not> distinct ([''a.txt''] @ [''b.txt''] @ [''a.txt''])" by blast
  moreover from t have "fst dup_run = Inl FileNotFoundError"
    unfolding dup_run_def by force
  ultimately show ?thesis using dup_fs_assignment by blast
qed

section \<open>Ten pairs and the default ratios\<close>

lemma float_04: "fadd (to_float (2 / 10)) (to_float (2 / 10)) = 3602879701896397 / 9007199254740992"
  by code_simp

lemma n_test_of_10: "\<lceil>fmul (3602879701896397 / 9007199254740992) (to_float 10)\<rceil> = 4"
  by code_simp

lemma float_half: "fdiv (to_float (2 / 10)) (3602879701896397 / 9007199254740992) = Inr (1 / 2)"
  by code_simp

lemma n_test_of_4: "\<lceil>fmul (1 / 2) (to_float 4)\<rceil> = 2"
  by code_simp

lemma train_test_split_counts:
  assumes len: "length (perm (length xs)) = length xs"
      and t: "0 < t" "t < 1"
      and nt: "\<lceil>fmul t (to_float (of_nat (length xs)))\<rceil> = int k"
      and k: "k < length xs"
  shows "\<exists>xtr xte ytr yte.
           train_test_split perm xs ys t = Inr (xtr, xte, ytr, yte) \<and>
           length xtr = length xs - k \<and> length xte = k \<and>
           length ytr = length xs - k \<and> length yte = k"
proof -
  let ?p = "perm (length xs)"
  have nv: "\<not> (t \<le> 0 \<or> 1 \<le> t)" using t by simp
  have ntr: "int (length xs) - int k \<noteq> 0" using k by simp
  have e: "train_test_split perm xs ys t
           = Inr (map ((!) xs) (take (length xs - k) (drop k ?p)), map ((!) xs) (take k ?p),
                  map ((!) ys) (take (length xs - k) (drop k ?p)), map ((!) ys) (take k ?p))"
    unfolding train_test_split_def Let_def nt if_not_P [OF nv] if_not_P [OF ntr]
    using k by (simp add: nat_diff_distrib' of_nat_diff)
  have l1: "length (take k ?p) = k" using k len by simp
  have l2: "length (take (length xs - k) (drop k ?p)) = length xs - k" using len by simp
  from e l1 l2 show ?thesis by simp
qed


lemma split_filenames_ten:
  assumes perm: "\<forall>n. mset (perm n) = mset [0..<n]"
      and ten: "length image_files = 10"
  shows "\<exists>tri trl vi vl tei tel.
           split_filenames perm image_files label_files (to_float (2 / 10)) (to_float (2 / 10))
             = Inr (tri, trl, vi, vl, tei, tel) \<and>
           length tri = 6 \<and> length trl = 6 \<and> length vi = 2 \<and> length vl = 2 \<and>
           length tei = 2 \<and> length tel = 2"
proof -
  let ?V = "3602879701896397 / 9007199254740992 :: rat"
  have len: "length (perm (length xs)) = length xs" for xs :: "string list"
    using perm perm_length by blast
  have nt1: "\<lceil>fmul ?V (to_float (of_nat (length image_files)))\<rceil> = int 4"
    unfolding ten using n_test_of_10 by simp
  have k1: "4 < length image_files" unfolding ten by simp
  have t1: "0 < ?V" "?V < 1" by simp_all
  from train_test_split_counts
         [where perm = perm and xs = image_files and ys = label_files and t = ?V and k = 4,
          OF len t1 nt1 k1]
  obtain tri tmpi trl tmpl where
    s1: "train_test_split perm image_files label_files ?V = Inr (tri, tmpi, trl, tmpl)"
    and l1: "length tri = 6" "length tmpi = 4" "length trl = 6" "length tmpl = 4"
    unfolding ten by auto
  have nt2: "\<lceil>fmul (1 / 2) (to_float (of_nat (length tmpi)))\<rceil> = int 2"
    unfolding l1 using n_test_of_4 by simp
  have k2: "2 < length tmpi" unfolding l1 by simp
  have t2: "0 < (1 / 2 :: rat)" "(1 / 2 :: rat) < 1" by simp_all
  from train_test_split_counts
         [where perm = perm and xs = tmpi and ys = tmpl and t = "1 / 2" and k = 2,
          OF len t2 nt2 k2]
  obtain vi tei vl tel where
    s2: "train_test_split perm tmpi tmpl (1 / 2) = Inr (vi, tei, vl, tel)"
    and l2: "length vi = 2" "length tei = 2" "length vl = 2" "length tel = 2"
    unfolding l1 by auto
  have "split_filenames perm image_files label_files (to_float (2 / 10)) (to_float (2 / 10))
        = Inr (tri, trl, vi, vl, tei, tel)"
    by (simp only: split_filenames_def float_04 float_half s1 s2 sum.case prod.case)
  with l1 l2 show ?thesis by blast
qed

text \<open>
  C8. For pools with exactly ten matched pairs, each label file being in the label pool
  under its name and no two pairs sharing it, and the ratios 0.6, 0.2 and 0.2,
  \<^verbatim>\<open>split_data\<close> completes and reports 6, 2 and 2: the train bucket has six images and
  six labels, the validation and the test bucket two and two, and every image of a bucket
  is in that bucket's images folder with the label named after it in that bucket's labels
  folder. (The float product \<^verbatim>\<open>(0.2 + 0.2) * 10\<close> is exactly 4 and
  \<^verbatim>\<open>0.2 / (0.2 + 0.2)\<close> is exactly 0.5.)
\<close>

theorem ten_pairs_split_6_2_2:
  assumes perm: "\<forall>n. mset (perm n) = mset [0..<n]"
      and n1: "image_dir \<noteq> label_dir"
      and n2: "image_dir \<notin> set (output_dirs p)"
      and n3: "label_dir \<notin> set (output_dirs p)"
      and img: "fs image_dir = Some image_listing"
      and lbl: "fs label_dir = Some label_listing"
      and dist: "distinct image_listing"
      and ten: "length (matched_files (sort image_listing) (sort label_listing)) = 10"
      and pairs: "distinct (map snd (matched_files (sort image_listing) (sort label_listing)))"
                 "set (map snd (matched_files (sort image_listing) (sort label_listing)))
                    \<subseteq> set label_listing"
  shows "\<exists>tri trl vi vl tei tel fs'.
     partition_assignment perm image_dir label_dir (to_float (2 / 10)) (to_float (2 / 10)) fs
       = Inr (tri, trl, vi, vl, tei, tel) \<and>
     split_data perm image_dir label_dir p
       (to_float (6 / 10)) (to_float (2 / 10)) (to_float (2 / 10)) fs = (Inr (6, 2, 2), fs') \<and>
     length tri = 6 \<and> length trl = 6 \<and> length vi = 2 \<and> length vl = 2 \<and>
     length tei = 2 \<and> length tel = 2 \<and>
     (\<forall>i \<in> set tri.
        i \<in> set (listing fs' (path_join p [''train'', ''images''])) \<and>
        fst (splitext i) @ ''.txt'' \<in> set (listing fs' (path_join p [''train'', ''labels'']))) \<and>
     (\<forall>i \<in> set vi.
        i \<in> set (listing fs' (path_join p [''valid'', ''images''])) \<and>
        fst (splitext i) @ ''.txt'' \<in> set (listing fs' (path_join p [''valid'', ''labels'']))) \<and>
     (\<forall>i \<in> set tei.
        i \<in> set (listing fs' (path_join p [''test'', ''images''])) \<and>
        fst (splitext i) @ ''.txt'' \<in> set (listing fs' (path_join p [''test'', ''labels''])))"
proof -
  let ?M = "matched_files (sort image_listing) (sort label_listing)"
  have "length (map fst ?M) = 10" using ten by simp
  from split_filenames_ten [OF perm this, of "map snd ?M"] obtain tri trl vi vl tei tel where
    sf: "split_filenames perm (map fst ?M) (map snd ?M) (to_float (2 / 10)) (to_float (2 / 10))
         = Inr (tri, trl, vi, vl, tei, tel)"
    and ln: "length tri = 6" "length trl = 6" "length vi = 2" "length vl = 2"
            "length tei = 2" "length tel = 2"
    by blast
  have res: "partition_assignment perm image_dir label_dir (to_float (2 / 10)) (to_float (2 / 10)) fs
             = Inr (tri, trl, vi, vl, tei, tel)"
    by (simp only: partition_assignment_split [OF img lbl] sf)
  note af = assignment_files [OF perm img lbl res]
  have l1: "distinct (trl @ vl @ tel)"
    using pairs(1) mset_eq_imp_distinct_iff [OF af(2)] by simp
  have l2: "set (trl @ vl @ tel) \<subseteq> set label_listing"
    using pairs(2) mset_eq_setD [OF af(2)] by simp
  from split_data_ok [OF perm n1 n2 n3 img lbl dist float_06_02_02 res l1 l2] obtain fs' where
    run: "split_data perm image_dir label_dir p
            (to_float (6 / 10)) (to_float (2 / 10)) (to_float (2 / 10)) fs
          = (Inr (length tri, length vi, length tei), fs')"
    by blast
  then have run6: "split_data perm image_dir label_dir p
            (to_float (6 / 10)) (to_float (2 / 10)) (to_float (2 / 10)) fs = (Inr (6, 2, 2), fs')"
    unfolding ln .
  note st = split_data_final_state [OF perm n1 n2 n3 img lbl dist res run6]
  note bl = bucket_labels [OF perm img lbl res]
  have a: "\<forall>i \<in> set tri. i \<in> set (listing fs' (path_join p [''train'', ''images''])) \<and>
            fst (splitext i) @ ''.txt'' \<in> set (listing fs' (path_join p [''train'', ''labels'']))"
    unfolding st(3) st(4) using bl(1) by blast
  have b: "\<forall>i \<in> set vi. i \<in> set (listing fs' (path_join p [''valid'', ''images''])) \<and>
            fst (splitext i) @ ''.txt'' \<in> set (listing fs' (path_join p [''valid'', ''labels'']))"
    unfolding st(5) st(6) using bl(2) by blast
  have c: "\<forall>i \<in> set tei. i \<in> set (listing fs' (path_join p [''test'', ''images''])) \<and>
            fst (splitext i) @ ''.txt'' \<in> set (listing fs' (path_join p [''test'', ''labels'']))"
    unfolding st(7) st(8) using bl(3) by blast
  from res run6 ln a b c show ?thesis by blast
qed

lemma ten_fs_images: "ten_fs ''data/all_images'' = Some ten_images"
  by (simp add: ten_fs_def)

lemma ten_fs_labels: "ten_fs ''data/all_labels'' = Some ten_labels"
  by (simp add: ten_fs_def)

lemma ten_images_distinct: "distinct ten_images"
  by code_simp

lemma ten_matched: "length (matched_files (sort ten_images) (sort ten_labels)) = 10"
  by code_simp

lemma ten_labels_distinct: "distinct (map snd (matched_files (sort ten_images) (sort ten_labels)))"
  by code_simp

lemma ten_labels_exist:
  "set (map snd (matched_files (sort ten_images) (sort ten_labels))) \<subseteq> set ten_labels"
  by code_simp

theorem ten_pairs_split_6_2_2_witness:
  "(\<forall>n. mset (seeded n) = mset [0..<n]) \<and>
   length (matched_files (sort ten_images) (sort ten_labels)) = 10 \<and>
   fst (split_data seeded ''data/all_images'' ''data/all_labels'' ''data/resplit''
          (to_float (6 / 10)) (to_float (2 / 10)) (to_float (2 / 10)) ten_fs) = Inr (6, 2, 2)"
proof -
  note t = ten_pairs_split_6_2_2
             [OF seeded_permutes pool_dirs ten_fs_images ten_fs_labels ten_images_distinct
                 ten_matched ten_labels_distinct ten_labels_exist]
  from t have "fst (split_data seeded ''data/all_images'' ''data/all_labels'' ''data/resplit''
          (to_float (6 / 10)) (to_float (2 / 10)) (to_float (2 / 10)) ten_fs) = Inr (6, 2, 2)"
    by force
  with seeded_permutes ten_matched show ?thesis by blast
qed

end
